theory Spec2Isabelle
  imports Main "HOL-Library.Sublist"
begin

section \<open>Basic types\<close>

text \<open>
  ObjectIds are modelled as natural numbers, dates as integers (milliseconds since the
  epoch, what \<^verbatim>\<open>Date.valueOf()\<close> returns) and JavaScript strings as \<^typ>\<open>string\<close>.
  Isabelle characters are 8 bits wide, so a string of the model is a sequence of code
  units below 256.
\<close>

type_synonym oid = nat
type_synonym time = int
type_synonym sid = string

text \<open>A plain JavaScript object, as \<^verbatim>\<open>toObject()\<close> returns it: keys with values.\<close>

datatype json =
    JNull
  | JBool bool
  | JNum int
  | JStr string
  | JId oid
  | JDate time
  | JArr "json list"
  | JObj "(string \<times> json) list"

type_synonym jobject = "(string \<times> json) list"

text \<open>\<^verbatim>\<open>delete obj.key\<close>\<close>

definition delete_key :: "string \<Rightarrow> jobject \<Rightarrow> jobject" where
  "delete_key k obj = filter (\<lambda>kv. fst kv \<noteq> k) obj"

text \<open>\<^verbatim>\<open>obj.key = v\<close>: an existing key keeps its place, a new key goes last.\<close>

fun set_key :: "string \<Rightarrow> json \<Rightarrow> jobject \<Rightarrow> jobject" where
  "set_key k v [] = [(k, v)]"
| "set_key k v ((k', v') # obj) =
     (if k' = k then (k, v) # obj else (k', v') # set_key k v obj)"

definition has_key :: "string \<Rightarrow> jobject \<Rightarrow> bool" where
  "has_key k obj = (k \<in> fst ` set obj)"

definition opt_json :: "('a \<Rightarrow> json) \<Rightarrow> 'a option \<Rightarrow> json" where
  "opt_json f x = (case x of None \<Rightarrow> JNull | Some v \<Rightarrow> f v)"

text \<open>
  \<^verbatim>\<open>String.prototype.trim\<close>: the white space and line terminator code units below 256
  are TAB, LF, VT, FF, CR, SPACE and NO-BREAK SPACE.
\<close>

definition is_ws :: "char \<Rightarrow> bool" where
  "is_ws c = (of_char c \<in> {9, 10, 11, 12, 13, 32, 160 :: nat})"

definition trim :: "string \<Rightarrow> string" where
  "trim s = rev (dropWhile is_ws (rev (dropWhile is_ws s)))"

section \<open>Accounts: \<^verbatim>\<open>models/User.js\<close> and \<^verbatim>\<open>models/Admin.js\<close>\<close>

record user_doc =
  u_id :: oid
  username :: string
  email :: string
  password :: string
  avatar :: string
  isOnline :: bool
  lastSeen :: time
  socketId :: "sid option"
  isActive :: bool
  u_createdAt :: time
  u_updatedAt :: time
  u_v :: nat










section \<open>Documents: \<^verbatim>\<open>models/Conversation.js\<close> and \<^verbatim>\<open>models/Message.js\<close>\<close>

datatype conv_type = Direct | Group

record conversation_doc =
  c_id :: oid
  participants :: "oid list"
  c_type :: conv_type
  c_name :: "string option"
  description :: "string option"
  c_avatar :: "string option"
  lastMessage :: "oid option"
  lastActivity :: time
  createdBy :: oid
  c_isActive :: bool
  c_createdAt :: time
  c_updatedAt :: time

text \<open>One element of \<^verbatim>\<open>readBy\<close>: \<^verbatim>\<open>{ user, readAt }\<close>.\<close>

record read_receipt =
  rr_user :: oid
  readAt :: time

record message_doc =
  m_id :: oid
  conversation :: oid
  sender :: oid
  content :: string
  m_type :: string
  fileUrl :: "string option"
  fileName :: "string option"
  fileSize :: "int option"
  readBy :: "read_receipt list"
  editedAt :: "time option"
  isEdited :: bool
  isDeleted :: bool
  deletedAt :: "time option"
  replyTo :: "oid option"
  m_createdAt :: time
  m_updatedAt :: time
  m_v :: nat

text \<open>
  The document store: three collections, each in insertion order (the order in which
  \<^verbatim>\<open>findOne\<close> meets the documents). The version key \<^verbatim>\<open>__v\<close> of a document is carried
  along, but the increments that Mongoose makes to it when an array of the document
  changes are not modelled: no code of the repository reads it, and \<^verbatim>\<open>toJSON\<close> deletes
  it. An account has no array, so its version key stays as it is.
\<close>

record db =
  users :: "user_doc list"
  conversations :: "conversation_doc list"
  messages :: "message_doc list"

datatype error =
    ValidationError string
  | HookError string
  | DuplicateKey
  | DocumentNotFound
  | BadValue string

subsection \<open>Saving documents\<close>

text \<open>
  The schema validators of a message that this code can fail: \<^verbatim>\<open>content\<close> is required
  (a non-empty string after the \<^verbatim>\<open>trim\<close> setter) with at most 2000 code units, and
  \<^verbatim>\<open>type\<close> is one of the enumerated kinds.
\<close>

definition valid_content :: "string \<Rightarrow> bool" where
  "valid_content s = (s \<noteq> [] \<and> length s \<le> 2000)"

definition message_kinds :: "string list" where
  "message_kinds = [''text'', ''image'', ''file'', ''system'']"

text \<open>
  \<^verbatim>\<open>new Message({ conversation, sender, content, type, replyTo })\<close>: the setters and the
  defaults of the schema. The two timestamps are written by the first save.
\<close>

definition new_Message :: "oid \<Rightarrow> oid \<Rightarrow> oid \<Rightarrow> string \<Rightarrow> string \<Rightarrow> oid option \<Rightarrow> message_doc" where
  "new_Message new_id cid uid c t r =
     \<lparr>m_id = new_id, conversation = cid, sender = uid, content = trim c, m_type = t,
      fileUrl = None, fileName = None, fileSize = None, readBy = [], editedAt = None,
      isEdited = False, isDeleted = False, deletedAt = None, replyTo = r,
      m_createdAt = 0, m_updatedAt = 0, m_v = 0\<rparr>"

text \<open>\<^verbatim>\<open>save()\<close> of a new message: validation, then the insertion.\<close>

definition message_insert :: "time \<Rightarrow> message_doc \<Rightarrow> db \<Rightarrow> error + (message_doc \<times> db)" where
  "message_insert now m d =
     (if \<not> valid_content (content m) then Inl (ValidationError ''content'')
      else if m_type m \<notin> set message_kinds then Inl (ValidationError ''type'')
      else if m_id m \<in> set (map m_id (messages d)) then Inl DuplicateKey
      else (let m' = m\<lparr>m_createdAt := now, m_updatedAt := now\<rparr>
            in Inr (m', d\<lparr>messages := messages d @ [m']\<rparr>)))"

text \<open>
  \<^verbatim>\<open>save()\<close> of a message that was loaded from the store and then changed: the stored
  document with that \<^verbatim>\<open>_id\<close> is replaced; a document that is no longer stored makes the
  save fail.
\<close>

definition message_update :: "time \<Rightarrow> message_doc \<Rightarrow> db \<Rightarrow> error + (message_doc \<times> db)" where
  "message_update now m d =
     (if m_id m \<notin> set (map m_id (messages d)) then Inl DocumentNotFound
      else (let m' = m\<lparr>m_updatedAt := now\<rparr>
            in Inr (m', d\<lparr>messages := map (\<lambda>x. if m_id x = m_id m then m' else x) (messages d)\<rparr>)))"

text \<open>\<^verbatim>\<open>conversationSchema.pre('save')\<close>: the participant validation.\<close>

definition pre_save :: "conversation_doc \<Rightarrow> error + conversation_doc" where
  "pre_save c =
     (if c_type c = Direct \<and> length (participants c) \<noteq> 2
        then Inl (HookError ''Direct conversations must have exactly 2 participants'')
      else if c_type c = Group \<and> length (participants c) < 2
        then Inl (HookError ''Group conversations must have at least 2 participants'')
      else Inr c)"

definition opt_length_le :: "nat \<Rightarrow> string option \<Rightarrow> bool" where
  "opt_length_le n s = (case s of None \<Rightarrow> True | Some x \<Rightarrow> length x \<le> n)"

text \<open>
  \<^verbatim>\<open>new Conversation({ participants, type, name, description, createdBy })\<close>;
  \<open>now\<close> is the \<^verbatim>\<open>Date.now\<close> default of \<^verbatim>\<open>lastActivity\<close>.
\<close>

definition new_Conversation ::
  "oid \<Rightarrow> oid list \<Rightarrow> conv_type \<Rightarrow> string option \<Rightarrow> string option \<Rightarrow> oid \<Rightarrow> time \<Rightarrow> conversation_doc" where
  "new_Conversation new_id ps t n desc creator now =
     \<lparr>c_id = new_id, participants = ps, c_type = t, c_name = map_option trim n,
      description = map_option trim desc, c_avatar = None, lastMessage = None,
      lastActivity = now, createdBy = creator, c_isActive = True,
      c_createdAt = 0, c_updatedAt = 0\<rparr>"

text \<open>
  \<^verbatim>\<open>save()\<close> of a new conversation: the \<^verbatim>\<open>maxlength\<close> validators, the
  \<^verbatim>\<open>pre('save')\<close> hook, the insertion.
\<close>

definition conversation_insert ::
  "time \<Rightarrow> conversation_doc \<Rightarrow> db \<Rightarrow> error + (conversation_doc \<times> db)" where
  "conversation_insert now c d =
     (if \<not> opt_length_le 100 (c_name c) then Inl (ValidationError ''name'')
      else if \<not> opt_length_le 500 (description c) then Inl (ValidationError ''description'')
      else case pre_save c of
        Inl e \<Rightarrow> Inl e
      | Inr _ \<Rightarrow>
          if c_id c \<in> set (map c_id (conversations d)) then Inl DuplicateKey
          else (let c' = c\<lparr>c_createdAt := now, c_updatedAt := now\<rparr>
                in Inr (c', d\<lparr>conversations := conversations d @ [c']\<rparr>)))"

text \<open>\<^verbatim>\<open>save()\<close> of a conversation that was loaded and then changed.\<close>

definition conversation_update ::
  "time \<Rightarrow> conversation_doc \<Rightarrow> db \<Rightarrow> error + (conversation_doc \<times> db)" where
  "conversation_update now c d =
     (case pre_save c of
        Inl e \<Rightarrow> Inl e
      | Inr _ \<Rightarrow>
          if c_id c \<notin> set (map c_id (conversations d)) then Inl DocumentNotFound
          else (let c' = c\<lparr>c_updatedAt := now\<rparr>
                in Inr (c', d\<lparr>conversations :=
                     map (\<lambda>x. if c_id x = c_id c then c' else x) (conversations d)\<rparr>)))"

subsection \<open>\<^verbatim>\<open>models/Conversation.js\<close>: statics and methods\<close>

text \<open>\<^verbatim>\<open>{ type: 'direct', participants: { $all: [userId1, userId2] } }\<close>\<close>

definition findDirectConversation :: "db \<Rightarrow> oid \<Rightarrow> oid \<Rightarrow> conversation_doc option" where
  "findDirectConversation d userId1 userId2 =
     find (\<lambda>c. c_type c = Direct \<and> userId1 \<in> set (participants c) \<and>
                userId2 \<in> set (participants c)) (conversations d)"

text \<open>\<^verbatim>\<open>Conversation.findOne({ _id: conversationId, participants: userId })\<close>\<close>

definition findConversationOf :: "db \<Rightarrow> oid \<Rightarrow> oid \<Rightarrow> conversation_doc option" where
  "findConversationOf d conversationId userId =
     find (\<lambda>c. c_id c = conversationId \<and> userId \<in> set (participants c)) (conversations d)"

definition addParticipant ::
  "time \<Rightarrow> oid \<Rightarrow> conversation_doc \<Rightarrow> db \<Rightarrow> error + (conversation_doc \<times> db)" where
  "addParticipant now userId c d =
     (if userId \<notin> set (participants c)
        then conversation_update now (c\<lparr>participants := participants c @ [userId]\<rparr>) d
      else Inr (c, d))"

definition removeParticipant ::
  "time \<Rightarrow> oid \<Rightarrow> conversation_doc \<Rightarrow> db \<Rightarrow> error + (conversation_doc \<times> db)" where
  "removeParticipant now userId c d =
     (let c1 = c\<lparr>participants := filter (\<lambda>participant. participant \<noteq> userId) (participants c)\<rparr>;
          c2 = (if length (participants c1) = 0 then c1\<lparr>c_isActive := False\<rparr> else c1)
      in conversation_update now c2 d)"

text \<open>An ObjectId is truthy, so \<^verbatim>\<open>if (messageId)\<close> only tests for the \<^verbatim>\<open>null\<close> default.\<close>

definition updateLastActivity ::
  "time \<Rightarrow> oid option \<Rightarrow> conversation_doc \<Rightarrow> db \<Rightarrow> error + (conversation_doc \<times> db)" where
  "updateLastActivity now messageId c d =
     (let c1 = c\<lparr>lastActivity := now\<rparr>;
          c2 = (case messageId of None \<Rightarrow> c1 | Some i \<Rightarrow> c1\<lparr>lastMessage := Some i\<rparr>)
      in conversation_update now c2 d)"

subsection \<open>\<^verbatim>\<open>models/Message.js\<close>: statics and methods\<close>

definition alreadyRead :: "oid \<Rightarrow> message_doc \<Rightarrow> bool" where
  "alreadyRead userId m = list_ex (\<lambda>read. rr_user read = userId) (readBy m)"

text \<open>
  \<^verbatim>\<open>markAsRead\<close>, on a copy \<open>m\<close> of the message that was loaded from the store. The
  check reads the receipts of the copy. The save of a document whose only change is an
  element pushed to an array is sent as \<^verbatim>\<open>$push\<close>, and without a condition on the
  version: the new receipt is appended to the receipts that are stored by then, also when
  these are no longer the receipts of the copy.
\<close>

definition markAsRead :: "time \<Rightarrow> oid \<Rightarrow> message_doc \<Rightarrow> db \<Rightarrow> error + (message_doc \<times> db)" where
  "markAsRead now userId m d =
     (if \<not> alreadyRead userId m
        then (let receipt = \<lparr>rr_user = userId, readAt = now\<rparr>
              in if m_id m \<notin> set (map m_id (messages d)) then Inl DocumentNotFound
                 else Inr (m\<lparr>readBy := readBy m @ [receipt], m_updatedAt := now\<rparr>,
                           d\<lparr>messages :=
                               map (\<lambda>x. if m_id x = m_id m
                                         then x\<lparr>readBy := readBy x @ [receipt], m_updatedAt := now\<rparr>
                                         else x) (messages d)\<rparr>))
      else Inr (m, d))"

text \<open>
  \<^verbatim>\<open>editContent\<close>: the assignment runs the \<^verbatim>\<open>trim\<close> setter, the save validates the
  changed path.
\<close>

definition editContent :: "time \<Rightarrow> string \<Rightarrow> message_doc \<Rightarrow> db \<Rightarrow> error + (message_doc \<times> db)" where
  "editContent now newContent m d =
     (let m1 = m\<lparr>content := trim newContent, isEdited := True, editedAt := Some now\<rparr>
      in if \<not> valid_content (content m1) then Inl (ValidationError ''content'')
         else message_update now m1 d)"

definition deleted_placeholder :: string where
  "deleted_placeholder = ''This message was deleted''"

definition softDelete :: "time \<Rightarrow> message_doc \<Rightarrow> db \<Rightarrow> error + (message_doc \<times> db)" where
  "softDelete now m d =
     message_update now
       (m\<lparr>isDeleted := True, deletedAt := Some now, content := deleted_placeholder\<rparr>) d"

text \<open>
  \<^verbatim>\<open>getUnreadCount\<close>: \<^verbatim>\<open>countDocuments\<close> with four conditions. \<^verbatim>\<open>$ne\<close> on the path
  \<^verbatim>\<open>readBy.user\<close>, which runs through an array, holds when no element of the array has
  that value.
\<close>

definition getUnreadCount :: "db \<Rightarrow> oid \<Rightarrow> oid \<Rightarrow> nat" where
  "getUnreadCount d conversationId userId =
     length (filter (\<lambda>m. conversation m = conversationId \<and> sender m \<noteq> userId \<and>
                          userId \<notin> set (map rr_user (readBy m)) \<and> isDeleted m = False)
               (messages d))"

text \<open>
  \<^verbatim>\<open>getConversationMessages\<close>: filter, sort by \<^verbatim>\<open>createdAt\<close> descending, skip, limit.
  MongoDB leaves the order of equal keys open; the model keeps them in insertion order.
  Page and limit are natural numbers here. A negative skip (page 0) is refused by the
  server, and a limit of 0 means no limit.
\<close>

definition visibleMessages :: "db \<Rightarrow> oid \<Rightarrow> message_doc list" where
  "visibleMessages d conversationId =
     sort_key (\<lambda>m. - m_createdAt m)
       (filter (\<lambda>m. conversation m = conversationId \<and> isDeleted m = False) (messages d))"

definition getConversationMessages :: "db \<Rightarrow> oid \<Rightarrow> nat \<Rightarrow> nat \<Rightarrow> error + message_doc list" where
  "getConversationMessages d conversationId page limit =
     (if page = 0 \<and> limit > 0 then Inl (BadValue ''skip'')
      else (let skip = (page - 1) * limit;
                found = drop skip (visibleMessages d conversationId)
            in Inr (if limit = 0 then found else take limit found)))"

subsection \<open>The JSON form of a message\<close>

definition receipt_toObject :: "read_receipt \<Rightarrow> json" where
  "receipt_toObject r = JObj [(''user'', JId (rr_user r)), (''readAt'', JDate (readAt r))]"

text \<open>
  \<^verbatim>\<open>this.toObject()\<close> of a message; \<open>s\<close> and \<open>r\<close> are the values of the paths
  \<^verbatim>\<open>sender\<close> and \<^verbatim>\<open>replyTo\<close>, which are ids or, after \<^verbatim>\<open>populate\<close>, objects.
\<close>

definition message_toObject :: "json \<Rightarrow> json \<Rightarrow> message_doc \<Rightarrow> jobject" where
  "message_toObject s r m =
     [(''_id'', JId (m_id m)),
      (''conversation'', JId (conversation m)),
      (''sender'', s),
      (''content'', JStr (content m)),
      (''type'', JStr (m_type m)),
      (''fileUrl'', opt_json JStr (fileUrl m)),
      (''fileName'', opt_json JStr (fileName m)),
      (''fileSize'', opt_json JNum (fileSize m)),
      (''readBy'', JArr (map receipt_toObject (readBy m))),
      (''editedAt'', opt_json JDate (editedAt m)),
      (''isEdited'', JBool (isEdited m)),
      (''isDeleted'', JBool (isDeleted m)),
      (''deletedAt'', opt_json JDate (deletedAt m)),
      (''replyTo'', r),
      (''createdAt'', JDate (m_createdAt m)),
      (''updatedAt'', JDate (m_updatedAt m)),
      (''__v'', JNum (int (m_v m)))]"

text \<open>\<^verbatim>\<open>messageSchema.methods.toJSON\<close>\<close>

definition message_toJSON :: "json \<Rightarrow> json \<Rightarrow> message_doc \<Rightarrow> jobject" where
  "message_toJSON s r m =
     (let message = message_toObject s r m;
          message = (if isDeleted m
                     then delete_key ''fileSize'' (delete_key ''fileName'' (delete_key ''fileUrl''
                            (set_key ''content'' (JStr ''This message was deleted'') message)))
                     else message)
      in delete_key ''__v'' message)"

text \<open>\<^verbatim>\<open>populate('sender', 'username email avatar')\<close>: \<^verbatim>\<open>null\<close> when the user is gone.\<close>

definition populate_sender :: "db \<Rightarrow> message_doc \<Rightarrow> json" where
  "populate_sender d m =
     (case find (\<lambda>u. u_id u = sender m) (users d) of
        None \<Rightarrow> JNull
      | Some u \<Rightarrow> JObj [(''_id'', JId (u_id u)), (''username'', JStr (username u)),
                        (''email'', JStr (email u)), (''avatar'', JStr (avatar u))])"

text \<open>\<^verbatim>\<open>populate('replyTo', 'content sender')\<close>\<close>

definition populate_replyTo :: "db \<Rightarrow> message_doc \<Rightarrow> json" where
  "populate_replyTo d m =
     (case replyTo m of
        None \<Rightarrow> JNull
      | Some i \<Rightarrow>
          (case find (\<lambda>x. m_id x = i) (messages d) of
             None \<Rightarrow> JNull
           | Some x \<Rightarrow> JObj [(''_id'', JId (m_id x)), (''content'', JStr (content x)),
                             (''sender'', JId (sender x))]))"

text \<open>The methods of the message schema that change a document, and their call.\<close>

datatype message_method = MarkAsRead oid | EditContent string | SoftDelete

fun call_method :: "time \<Rightarrow> message_method \<Rightarrow> message_doc \<Rightarrow> db \<Rightarrow> error + (message_doc \<times> db)" where
  "call_method now (MarkAsRead uid) m d = markAsRead now uid m d"
| "call_method now (EditContent newContent) m d = editContent now newContent m d"
| "call_method now SoftDelete m d = softDelete now m d"

text \<open>
  The unread count in the words of the specification: the number of messages of the
  conversation that are not deleted, were sent by somebody else and have no read receipt
  of the identity.
\<close>

definition spec_unreadCount :: "db \<Rightarrow> oid \<Rightarrow> oid \<Rightarrow> nat" where
  "spec_unreadCount d c u =
     card {m \<in> set (messages d). conversation m = c \<and> sender m \<noteq> u \<and>
             u \<notin> rr_user ` set (readBy m) \<and> \<not> isDeleted m}"

section \<open>REST handlers\<close>

text \<open>
  A handler takes the store and the authenticated caller (\<^verbatim>\<open>req.user._id\<close>) and returns
  the new store with the response: status, message and data. \<open>now\<close> is the clock and
  \<open>new_id\<close> the ObjectId that a document constructor draws. Ids arrive as ObjectIds in
  canonical form. A handler runs from its start to its response without another handler
  in between. Where a response carries a conversation, its data is the document; the
  populated JSON form of a conversation is left out.
\<close>

datatype 'a response = Response (status: nat) (r_message: string) (r_data: "'a option")

subsection \<open>Conversations\<close>

text \<open>
  The router of \<^verbatim>\<open>/api/conversations\<close>; its source is the second half of
  \<^verbatim>\<open>src/routes/adminAuth.js\<close>. \<^verbatim>\<open>validateConversation\<close> is in the validation
  middleware that follows the model in \<^verbatim>\<open>src/models/Message.js\<close>.
\<close>

record conversation_body =
  b_participants :: "oid list"
  b_type :: "conv_type option"
  b_name :: "string option"
  b_description :: "string option"

text \<open>
  \<^verbatim>\<open>validateConversation\<close>: at least one participant, a name of at most 100 characters
  after trimming.
\<close>

definition validateConversation :: "conversation_body \<Rightarrow> bool" where
  "validateConversation body =
     (length (b_participants body) \<ge> 1 \<and> opt_length_le 100 (map_option trim (b_name body)))"

text \<open>\<^verbatim>\<open>[...new Set(xs)]\<close>: the first occurrence of every element, in order.\<close>

definition uniq :: "'a list \<Rightarrow> 'a list" where
  "uniq xs = rev (remdups (rev xs))"

text \<open>\<^verbatim>\<open>User.find({ _id: { $in: ids } })\<close>\<close>

definition findUsersIn :: "db \<Rightarrow> oid list \<Rightarrow> user_doc list" where
  "findUsersIn d ids = filter (\<lambda>u. u_id u \<in> set ids) (users d)"

text \<open>\<^verbatim>\<open>router.post('/')\<close>: create or get the existing conversation.\<close>

definition create_conversation ::
  "time \<Rightarrow> oid \<Rightarrow> db \<Rightarrow> oid \<Rightarrow> conversation_body \<Rightarrow> db \<times> conversation_doc response" where
  "create_conversation now new_id d caller body =
     (if \<not> validateConversation body then (d, Response 400 ''Validation failed'' None)
      else
        let type = (case b_type body of None \<Rightarrow> Direct | Some t \<Rightarrow> t);
            allParticipants = uniq (b_participants body @ [caller]);
            existingConversation =
              (if type = Direct \<and> length allParticipants = 2
               then findDirectConversation d (allParticipants ! 0) (allParticipants ! 1)
               else None)
        in case existingConversation of
             Some c \<Rightarrow> (d, Response 200 ''Conversation already exists'' (Some c))
           | None \<Rightarrow>
               if length (findUsersIn d allParticipants) \<noteq> length allParticipants
               then (d, Response 400 ''One or more participants not found'' None)
               else
                 (case conversation_insert now
                         (new_Conversation new_id allParticipants type (b_name body)
                            (b_description body) caller now) d of
                    Inl e \<Rightarrow> (d, Response 500 ''Server error creating conversation'' None)
                  | Inr (c, d') \<Rightarrow>
                      (d', Response 201 ''Conversation created successfully'' (Some c))))"

text \<open>\<^verbatim>\<open>router.delete('/:id')\<close>: leave a conversation.\<close>

definition delete_conversation :: "time \<Rightarrow> db \<Rightarrow> oid \<Rightarrow> oid \<Rightarrow> db \<times> unit response" where
  "delete_conversation now d caller ident =
     (case findConversationOf d ident caller of
        None \<Rightarrow> (d, Response 404 ''Conversation not found'' None)
      | Some c \<Rightarrow>
          (case removeParticipant now caller c d of
             Inl e \<Rightarrow> (d, Response 500 ''Server error leaving conversation'' None)
           | Inr (c', d') \<Rightarrow> (d', Response 200 ''Left conversation successfully'' None)))"

text \<open>\<^verbatim>\<open>router.post('/:id/participants')\<close>: add a participant.\<close>

definition add_participant ::
  "time \<Rightarrow> db \<Rightarrow> oid \<Rightarrow> oid \<Rightarrow> oid \<Rightarrow> db \<times> conversation_doc response" where
  "add_participant now d caller ident userId =
     (case findConversationOf d ident caller of
        None \<Rightarrow> (d, Response 404 ''Conversation not found'' None)
      | Some c \<Rightarrow>
          (case find (\<lambda>u. u_id u = userId) (users d) of
             None \<Rightarrow> (d, Response 404 ''User not found'' None)
           | Some userToAdd \<Rightarrow>
               (case addParticipant now userId c d of
                  Inl e \<Rightarrow> (d, Response 500 ''Server error adding participant'' None)
                | Inr (c', d') \<Rightarrow> (d', Response 200 ''Participant added successfully'' (Some c')))))"

subsection \<open>Group members\<close>

text \<open>
  The router of \<^verbatim>\<open>src/routes/groupMembers.js\<close>, which the server mounts on
  \<^verbatim>\<open>/api/conversations\<close> after the router above. Its handlers load the conversation
  with \<^verbatim>\<open>findById\<close>, whether it is active or not, and populate \<^verbatim>\<open>participants\<close> and
  \<^verbatim>\<open>createdBy\<close>.
\<close>

text \<open>
  \<^verbatim>\<open>populate('participants', ...)\<close>: the participants whose account is stored, in
  their order; an id without an account is left out of the populated array. The model
  keeps the ids of the populated accounts.
\<close>

definition populated_participants :: "db \<Rightarrow> conversation_doc \<Rightarrow> oid list" where
  "populated_participants d c = filter (\<lambda>p. p \<in> set (map u_id (users d))) (participants c)"

text \<open>A number in a template literal, and \<^verbatim>\<open>xs.join(', ')\<close>.\<close>

fun decimal :: "nat \<Rightarrow> string" where
  "decimal n =
     (if n < 10 then [char_of (48 + n)] else decimal (n div 10) @ [char_of (48 + n mod 10)])"

declare decimal.simps [simp del]

fun join_comma :: "string list \<Rightarrow> string" where
  "join_comma [] = []"
| "join_comma [x] = x"
| "join_comma (x # y # xs) = x @ '', '' @ join_comma (y # xs)"

text \<open>
  \<^verbatim>\<open>save()\<close> of a conversation that was loaded with populated participants, after
  \<^verbatim>\<open>participants.push\<close> of the ids \<open>added\<close>. The hook runs on the document in memory
  \<open>c\<close>, whose participant list has the populated participants and the pushed ids. The
  write is a \<^verbatim>\<open>$push\<close>: the ids are appended to the stored list.
\<close>

definition save_pushed :: "time \<Rightarrow> conversation_doc \<Rightarrow> oid list \<Rightarrow> db \<Rightarrow> error + db" where
  "save_pushed now c added d =
     (case pre_save c of
        Inl e \<Rightarrow> Inl e
      | Inr _ \<Rightarrow>
          if c_id c \<notin> set (map c_id (conversations d)) then Inl DocumentNotFound
          else Inr (d\<lparr>conversations :=
                 map (\<lambda>x. if c_id x = c_id c
                           then x\<lparr>participants := participants x @ added, c_updatedAt := now\<rparr>
                           else x) (conversations d)\<rparr>))"

text \<open>
  \<^verbatim>\<open>updateLastActivity(messageId)\<close> on that document \<open>c\<close>: the hook runs on the document
  in memory again, and the write sets \<^verbatim>\<open>lastActivity\<close> and \<^verbatim>\<open>lastMessage\<close>.
\<close>

definition save_activity :: "time \<Rightarrow> oid \<Rightarrow> conversation_doc \<Rightarrow> db \<Rightarrow> error + db" where
  "save_activity now messageId c d =
     (case pre_save c of
        Inl e \<Rightarrow> Inl e
      | Inr _ \<Rightarrow>
          if c_id c \<notin> set (map c_id (conversations d)) then Inl DocumentNotFound
          else Inr (d\<lparr>conversations :=
                 map (\<lambda>x. if c_id x = c_id c
                           then x\<lparr>lastActivity := now, lastMessage := Some messageId,
                                  c_updatedAt := now\<rparr>
                           else x) (conversations d)\<rparr>))"

text \<open>
  \<^verbatim>\<open>router.post('/:id/members')\<close>: add members to a group. \<^verbatim>\<open>userIds\<close> is an array; the
  empty list stands for a missing one as well. When the account of the creator is gone,
  \<^verbatim>\<open>conversation.createdBy\<close> is \<^verbatim>\<open>null\<close> and reading its \<^verbatim>\<open>_id\<close> throws. The data of
  the response is \<^verbatim>\<open>totalMembers\<close>.
\<close>

definition add_group_members ::
  "time \<Rightarrow> oid \<Rightarrow> db \<Rightarrow> oid \<Rightarrow> oid \<Rightarrow> oid list \<Rightarrow> db \<times> nat response" where
  "add_group_members now new_id d caller ident userIds =
     (let failed = Response 500 ''Server error adding group members'' None
      in if userIds = [] then (d, Response 400 ''User IDs array is required'' None)
      else case find (\<lambda>c. c_id c = ident) (conversations d) of
        None \<Rightarrow> (d, Response 404 ''Conversation not found'' None)
      | Some conv \<Rightarrow>
          (let members = populated_participants d conv;
               isParticipant = (caller \<in> set members);
               isCreator = (createdBy conv = caller);
               usersToAdd = filter (\<lambda>u. u_id u \<in> set userIds \<and> isActive u) (users d);
               addedUsers = filter (\<lambda>u. u_id u \<notin> set members) usersToAdd;
               loaded = conv\<lparr>participants := members @ map u_id addedUsers\<rparr>;
               added = Response 200 (decimal (length addedUsers) @ '' member(s) added successfully'')
                         (Some (length (participants loaded)))
           in if createdBy conv \<notin> set (map u_id (users d)) then (d, failed)
              else if \<not> isParticipant \<and> \<not> isCreator
                then (d, Response 403
                           ''You are not authorized to add members to this conversation'' None)
              else if c_type conv \<noteq> Group
                then (d, Response 400
                           ''This operation is only allowed for group conversations'' None)
              else if length usersToAdd \<noteq> length userIds
                then (d, Response 400 ''One or more users not found or inactive'' None)
              else if addedUsers = [] then (d, added)
              else
                (case save_pushed now loaded (map u_id addedUsers) d of
                   Inl e \<Rightarrow> (d, failed)
                 | Inr d1 \<Rightarrow>
                     (case message_insert now
                             (new_Message new_id ident caller
                                (join_comma (map username addedUsers) @ '' '' @
                                 (if length addedUsers = 1 then ''was'' else ''were'') @
                                 '' added to the group'')
                                ''system'' None) d1 of
                        Inl e \<Rightarrow> (d1, failed)
                      | Inr (systemMessage, d2) \<Rightarrow>
                          (case save_activity now (m_id systemMessage) loaded d2 of
                             Inl e \<Rightarrow> (d2, failed)
                           | Inr d3 \<Rightarrow> (d3, added))))))"

text \<open>
  \<^verbatim>\<open>router.delete('/:id/members/:userId')\<close>: remove a member from a group.
  \<^verbatim>\<open>removeParticipant\<close> runs on the loaded document, whose participant list has the
  populated participants; its save writes the filtered list as a whole. The data of the
  response is \<^verbatim>\<open>remainingMembers\<close>.
\<close>

definition remove_group_member ::
  "time \<Rightarrow> oid \<Rightarrow> db \<Rightarrow> oid \<Rightarrow> oid \<Rightarrow> oid \<Rightarrow> db \<times> nat response" where
  "remove_group_member now new_id d caller ident uid =
     (let failed = Response 500 ''Server error removing group member'' None
      in case find (\<lambda>c. c_id c = ident) (conversations d) of
        None \<Rightarrow> (d, Response 404 ''Conversation not found'' None)
      | Some conv \<Rightarrow>
          (let isCreator = (createdBy conv = caller);
               isSelfRemoval = (caller = uid);
               members = populated_participants d conv
           in if c_type conv \<noteq> Group
                then (d, Response 400
                           ''This operation is only allowed for group conversations'' None)
              else if createdBy conv \<notin> set (map u_id (users d)) then (d, failed)
              else if \<not> isCreator \<and> \<not> isSelfRemoval
                then (d, Response 403 ''You can only remove yourself from the group'' None)
              else
                (case find (\<lambda>u. u_id u = uid) (users d) of
                   None \<Rightarrow> (d, Response 404 ''User not found'' None)
                 | Some userToRemove \<Rightarrow>
                     if uid \<notin> set members
                     then (d, Response 400 ''User is not a member of this conversation'' None)
                     else
                       (case removeParticipant now uid (conv\<lparr>participants := members\<rparr>) d of
                          Inl e \<Rightarrow> (d, failed)
                        | Inr (c1, d1) \<Rightarrow>
                            (case message_insert now
                                    (new_Message new_id ident caller
                                       (if isSelfRemoval
                                        then username userToRemove @ '' left the group''
                                        else username userToRemove @ '' was removed from the group'')
                                       ''system'' None) d1 of
                               Inl e \<Rightarrow> (d1, failed)
                             | Inr (systemMessage, d2) \<Rightarrow>
                                 (case updateLastActivity now (Some (m_id systemMessage)) c1 d2 of
                                    Inl e \<Rightarrow> (d2, failed)
                                  | Inr (c2, d3) \<Rightarrow>
                                      (d3, Response 200
                                             (if isSelfRemoval then ''You have left the group''
                                              else ''Member removed successfully'')
                                             (Some (length (participants c2))))))))))"

text \<open>The participant sets of the direct conversations of the store, in stored order.\<close>

definition direct_pairs :: "db \<Rightarrow> oid set list" where
  "direct_pairs d =
     map (\<lambda>c. set (participants c)) (filter (\<lambda>c. c_type c = Direct) (conversations d))"

text \<open>
  The participant constraint in the words of the specification: a direct conversation has
  exactly 2 participants, a group at least 2.
\<close>

definition participants_ok :: "conversation_doc \<Rightarrow> bool" where
  "participants_ok c =
     (case c_type c of Direct \<Rightarrow> length (participants c) = 2
                     | Group \<Rightarrow> length (participants c) \<ge> 2)"

definition store_ok :: "db \<Rightarrow> bool" where
  "store_ok d = list_all participants_ok (conversations d)"

text \<open>The database keeps \<^verbatim>\<open>_id\<close> unique in the collection of the conversations.\<close>

definition unique_ids :: "db \<Rightarrow> bool" where
  "unique_ids d = distinct (map c_id (conversations d))"

subsection \<open>Administration of accounts\<close>

text \<open>
  The router of \<^verbatim>\<open>/api/admin/users\<close>; its source is \<^verbatim>\<open>src/unnamed/part_004\<close>.
\<close>




text \<open>
  \<^verbatim>\<open>router.delete('/:id')\<close>: \<^verbatim>\<open>User.findByIdAndDelete\<close>, and nothing else. The server
  mounts this router on \<^verbatim>\<open>/api/admin/users\<close> before the router of \<^verbatim>\<open>/api/admin\<close>, so
  this handler answers every \<^verbatim>\<open>DELETE /api/admin/users/:id\<close>. The controller function
  \<^verbatim>\<open>deleteUser\<close> behind \<^verbatim>\<open>router.delete('/users/:userId')\<close> of the later router, which
  pulls the user out of the participant lists with \<^verbatim>\<open>updateMany\<close>, is not reached by any
  request and is no part of the model.
\<close>

definition delete_admin_user :: "db \<Rightarrow> oid \<Rightarrow> db \<times> unit response" where
  "delete_admin_user d ident =
     (case find (\<lambda>u. u_id u = ident) (users d) of
        None \<Rightarrow> (d, Response 404 ''User not found'' None)
      | Some user \<Rightarrow>
          (d\<lparr>users := filter (\<lambda>u. u_id u \<noteq> ident) (users d)\<rparr>,
           Response 200 ''User deleted successfully'' None))"

subsection \<open>Messages\<close>

text \<open>The router of \<^verbatim>\<open>/api/messages\<close>; its source is \<^verbatim>\<open>src/unnamed/part_000\<close>.\<close>

text \<open>What a reader is sent for one message: the populated document through \<^verbatim>\<open>toJSON\<close>.\<close>

definition message_view :: "db \<Rightarrow> message_doc \<Rightarrow> jobject" where
  "message_view d m = message_toJSON (populate_sender d m) (populate_replyTo d m) m"

text \<open>\<^verbatim>\<open>router.get('/:conversationId')\<close>: the messages of a conversation, oldest first.\<close>

definition get_messages :: "db \<Rightarrow> oid \<Rightarrow> oid \<Rightarrow> nat \<Rightarrow> nat \<Rightarrow> jobject list response" where
  "get_messages d caller conversationId page limit =
     (case findConversationOf d conversationId caller of
        None \<Rightarrow> Response 404 ''Conversation not found'' None
      | Some c \<Rightarrow>
          (case getConversationMessages d conversationId page limit of
             Inl e \<Rightarrow> Response 500 ''Server error getting messages'' None
           | Inr ms \<Rightarrow> Response 200 [] (Some (map (message_view d) (rev ms)))))"

text \<open>\<^verbatim>\<open>Message.findOne({ _id: id, sender: req.user._id, isDeleted: false })\<close>\<close>

definition findOwnMessage :: "db \<Rightarrow> oid \<Rightarrow> oid \<Rightarrow> message_doc option" where
  "findOwnMessage d ident caller =
     find (\<lambda>m. m_id m = ident \<and> sender m = caller \<and> isDeleted m = False) (messages d)"

text \<open>
  \<^verbatim>\<open>router.put('/:id')\<close>: edit a message. The empty string stands for a missing
  \<^verbatim>\<open>content\<close> as well: both are falsy.
\<close>

definition edit_message :: "time \<Rightarrow> db \<Rightarrow> oid \<Rightarrow> oid \<Rightarrow> string \<Rightarrow> db \<times> jobject response" where
  "edit_message now d caller ident c =
     (if c = [] \<or> length (trim c) = 0 then (d, Response 400 ''Message content is required'' None)
      else case findOwnMessage d ident caller of
        None \<Rightarrow> (d, Response 404 ''Message not found or you are not authorized to edit it'' None)
      | Some m \<Rightarrow>
          (let fifteenMinutesAgo = now - 15 * 60 * 1000
           in if m_createdAt m < fifteenMinutesAgo
              then (d, Response 400 ''Message is too old to edit'' None)
              else (case editContent now (trim c) m d of
                      Inl e \<Rightarrow> (d, Response 500 ''Server error editing message'' None)
                    | Inr (m', d') \<Rightarrow>
                        (d', Response 200 ''Message edited successfully''
                               (Some (message_toJSON (populate_sender d' m')
                                        (opt_json JId (replyTo m')) m'))))))"

text \<open>\<^verbatim>\<open>router.delete('/:id')\<close>: soft-delete a message.\<close>

definition delete_message :: "time \<Rightarrow> db \<Rightarrow> oid \<Rightarrow> oid \<Rightarrow> db \<times> unit response" where
  "delete_message now d caller ident =
     (case findOwnMessage d ident caller of
        None \<Rightarrow> (d, Response 404 ''Message not found or you are not authorized to delete it'' None)
      | Some m \<Rightarrow>
          (case softDelete now m d of
             Inl e \<Rightarrow> (d, Response 500 ''Server error deleting message'' None)
           | Inr (m', d') \<Rightarrow> (d', Response 200 ''Message deleted successfully'' None)))"

text \<open>\<^verbatim>\<open>router.post('/:id/read')\<close>: mark a message as read.\<close>

definition mark_message_read :: "time \<Rightarrow> db \<Rightarrow> oid \<Rightarrow> oid \<Rightarrow> db \<times> unit response" where
  "mark_message_read now d caller ident =
     (case find (\<lambda>m. m_id m = ident) (messages d) of
        None \<Rightarrow> (d, Response 404 ''Message not found'' None)
      | Some m \<Rightarrow>
          (case findConversationOf d (conversation m) caller of
             None \<Rightarrow> (d, Response 404 ''Conversation not found'' None)
           | Some c \<Rightarrow>
               (case markAsRead now caller m d of
                  Inl e \<Rightarrow> (d, Response 500 ''Server error marking message as read'' None)
                | Inr (m', d') \<Rightarrow> (d', Response 200 ''Message marked as read'' None))))"

section \<open>The realtime gateway (\<^verbatim>\<open>socket/socketHandlers.js\<close>)\<close>

text \<open>The rooms \<^verbatim>\<open>user_${userId}\<close> and \<^verbatim>\<open>conversation_${conversationId}\<close>.\<close>

datatype room = User_room oid | Conversation_room oid

text \<open>
  What the handlers read of a socket: \<^verbatim>\<open>socket.id\<close>, \<^verbatim>\<open>socket.userId\<close> and
  \<^verbatim>\<open>socket.user.username\<close>, set by the authentication middleware; \<^verbatim>\<open>socket.user\<close> is the
  account with the id \<^verbatim>\<open>socket.userId\<close>.
\<close>

record socket =
  sk_id :: sid
  userId :: oid
  sk_username :: string

datatype server_event =
    User_online oid string
  | User_joined_conversation oid string oid
  | User_left_conversation oid string oid
  | New_message jobject
  | User_typing oid string oid
  | User_stopped_typing oid string oid
  | Messages_read oid oid "oid list"
  | User_status_changed oid string string
  | User_offline oid string time
  | Error_event string

text \<open>An emission: the connections an event is sent to, and the event.\<close>

type_synonym emission = "sid set \<times> server_event"

text \<open>
  The state of the process: the document store, the module-level map \<^verbatim>\<open>activeUsers\<close>
  (user id to socket id), what the socket library keeps: the members of every room and
  the connections of the namespace, and what Mongoose keeps in the document
  \<^verbatim>\<open>socket.user\<close> of a socket: whether a save of the document is in flight. \<open>saving\<close>
  has the time at which that save was started.
\<close>

record gateway =
  store :: db
  activeUsers :: "oid \<rightharpoonup> sid"
  rooms :: "room \<Rightarrow> sid set"
  connected :: "sid set"
  saving :: "sid \<rightharpoonup> time"

text \<open>\<^verbatim>\<open>io.to(room).emit\<close>, \<^verbatim>\<open>socket.to(room).emit\<close>, \<^verbatim>\<open>socket.broadcast.emit\<close>, \<^verbatim>\<open>socket.emit\<close>\<close>

definition io_to :: "gateway \<Rightarrow> room \<Rightarrow> server_event \<Rightarrow> emission" where
  "io_to g r ev = (rooms g r, ev)"

definition socket_to :: "gateway \<Rightarrow> socket \<Rightarrow> room \<Rightarrow> server_event \<Rightarrow> emission" where
  "socket_to g sk r ev = (rooms g r - {sk_id sk}, ev)"

definition socket_broadcast :: "gateway \<Rightarrow> socket \<Rightarrow> server_event \<Rightarrow> emission" where
  "socket_broadcast g sk ev = (connected g - {sk_id sk}, ev)"

definition socket_emit :: "socket \<Rightarrow> server_event \<Rightarrow> emission" where
  "socket_emit sk ev = ({sk_id sk}, ev)"

definition socket_join :: "socket \<Rightarrow> room \<Rightarrow> gateway \<Rightarrow> gateway" where
  "socket_join sk r g = g\<lparr>rooms := (rooms g)(r := insert (sk_id sk) (rooms g r))\<rparr>"

definition socket_leave :: "socket \<Rightarrow> room \<Rightarrow> gateway \<Rightarrow> gateway" where
  "socket_leave sk r g = g\<lparr>rooms := (rooms g)(r := rooms g r - {sk_id sk})\<rparr>"

text \<open>
  \<^verbatim>\<open>userSchema.methods.setOnlineStatus\<close> with its save: the three changed paths are
  written to the stored account; the save fails when the account is no longer stored.
\<close>

definition setOnlineStatus :: "time \<Rightarrow> bool \<Rightarrow> sid option \<Rightarrow> oid \<Rightarrow> db \<Rightarrow> error + db" where
  "setOnlineStatus now online sock uid d =
     (if uid \<notin> set (map u_id (users d)) then Inl DocumentNotFound
      else Inr (d\<lparr>users :=
             map (\<lambda>u. if u_id u = uid
                       then u\<lparr>isOnline := online, socketId := sock,
                              lastSeen := (if \<not> online then now else lastSeen u),
                              u_updatedAt := now\<rparr>
                       else u) (users d)\<rparr>))"

text \<open>
  \<^verbatim>\<open>handleConnection\<close>, up to the registration of the listeners. The socket library has
  admitted the socket to the namespace. \<^verbatim>\<open>setOnlineStatus(true, socket.id)\<close> is called
  without \<^verbatim>\<open>await\<close>: it starts the save of \<^verbatim>\<open>socket.user\<close> and the handler goes on
  while the save is in flight.
\<close>

definition handleConnection :: "time \<Rightarrow> gateway \<Rightarrow> socket \<Rightarrow> gateway \<times> emission list" where
  "handleConnection now g sk =
     (let g1 = g\<lparr>connected := insert (sk_id sk) (connected g)\<rparr>;
          g2 = g1\<lparr>activeUsers := (activeUsers g1)(userId sk \<mapsto> sk_id sk)\<rparr>;
          g3 = g2\<lparr>saving := (saving g2)(sk_id sk \<mapsto> now)\<rparr>;
          g4 = socket_join sk (User_room (userId sk)) g3
      in (g4, [socket_broadcast g4 sk (User_online (userId sk) (sk_username sk))]))"

text \<open>
  The save that \<^verbatim>\<open>handleConnection\<close> started completes: the database writes the three
  paths as they were when the save was started, and the document is free for the next
  save. The promise is dropped, so a failed save changes nothing.
\<close>

definition save_completes :: "gateway \<Rightarrow> socket \<Rightarrow> gateway" where
  "save_completes g sk =
     (case saving g (sk_id sk) of
        None \<Rightarrow> g
      | Some started \<Rightarrow>
          (let g1 = g\<lparr>saving := (saving g)(sk_id sk := None)\<rparr>
           in case setOnlineStatus started True (Some (sk_id sk)) (userId sk) (store g1) of
                Inl e \<Rightarrow> g1
              | Inr d \<Rightarrow> g1\<lparr>store := d\<rparr>))"

text \<open>\<^verbatim>\<open>socket.on('join_conversation')\<close>\<close>

definition join_conversation :: "gateway \<Rightarrow> socket \<Rightarrow> oid \<Rightarrow> gateway \<times> emission list" where
  "join_conversation g sk conversationId =
     (case findConversationOf (store g) conversationId (userId sk) of
        Some conv \<Rightarrow>
          (let g1 = socket_join sk (Conversation_room conversationId) g
           in (g1, [socket_to g1 sk (Conversation_room conversationId)
                      (User_joined_conversation (userId sk) (sk_username sk) conversationId)]))
      | None \<Rightarrow> (g, []))"

text \<open>\<^verbatim>\<open>socket.on('leave_conversation')\<close>\<close>

definition leave_conversation :: "gateway \<Rightarrow> socket \<Rightarrow> oid \<Rightarrow> gateway \<times> emission list" where
  "leave_conversation g sk conversationId =
     (let g1 = socket_leave sk (Conversation_room conversationId) g
      in (g1, [socket_to g1 sk (Conversation_room conversationId)
                 (User_left_conversation (userId sk) (sk_username sk) conversationId)]))"

text \<open>
  The payload of \<^verbatim>\<open>send_message\<close>. The empty string stands for a missing \<^verbatim>\<open>content\<close> as
  well: the \<^verbatim>\<open>required\<close> validator refuses both.
\<close>

record send_data =
  sd_conversationId :: oid
  sd_content :: string
  sd_type :: "string option"
  sd_replyTo :: "oid option"

text \<open>
  \<^verbatim>\<open>socket.on('send_message')\<close>. The list of offline participants that the handler
  computes at its end is only logged.
\<close>

definition send_message ::
  "time \<Rightarrow> oid \<Rightarrow> gateway \<Rightarrow> socket \<Rightarrow> send_data \<Rightarrow> gateway \<times> emission list" where
  "send_message now new_id g sk dat =
     (let type = (case sd_type dat of None \<Rightarrow> ''text'' | Some t \<Rightarrow> t)
      in case findConversationOf (store g) (sd_conversationId dat) (userId sk) of
        None \<Rightarrow> (g, [socket_emit sk (Error_event ''Conversation not found'')])
      | Some conv \<Rightarrow>
          (case message_insert now
                  (new_Message new_id (sd_conversationId dat) (userId sk) (sd_content dat) type
                     (sd_replyTo dat)) (store g) of
             Inl e \<Rightarrow> (g, [socket_emit sk (Error_event ''Failed to send message'')])
           | Inr (message, d1) \<Rightarrow>
               (case updateLastActivity now (Some (m_id message)) conv d1 of
                  Inl e \<Rightarrow> (g\<lparr>store := d1\<rparr>,
                            [socket_emit sk (Error_event ''Failed to send message'')])
                | Inr (c', d2) \<Rightarrow>
                    (let g2 = g\<lparr>store := d2\<rparr>
                     in (g2, [io_to g2 (Conversation_room (sd_conversationId dat))
                                (New_message (message_view d2 message))])))))"

text \<open>\<^verbatim>\<open>socket.on('typing_start')\<close> and \<^verbatim>\<open>socket.on('typing_stop')\<close>\<close>

definition typing_start :: "gateway \<Rightarrow> socket \<Rightarrow> oid \<Rightarrow> gateway \<times> emission list" where
  "typing_start g sk conversationId =
     (g, [socket_to g sk (Conversation_room conversationId)
            (User_typing (userId sk) (sk_username sk) conversationId)])"

definition typing_stop :: "gateway \<Rightarrow> socket \<Rightarrow> oid \<Rightarrow> gateway \<times> emission list" where
  "typing_stop g sk conversationId =
     (g, [socket_to g sk (Conversation_room conversationId)
            (User_stopped_typing (userId sk) (sk_username sk) conversationId)])"

text \<open>
  \<^verbatim>\<open>Promise.all(messageIds.map(...))\<close>. The callbacks are started one after the other
  without waiting, so every callback has sent its \<^verbatim>\<open>findById\<close> before any callback
  saves: each works on its own copy of its message, as the store has it at the start, or
  on \<^verbatim>\<open>null\<close>. Then every copy that was found is marked and saved, in the order of
  \<^verbatim>\<open>messageIds\<close>. An id given twice is loaded twice, and neither copy has the receipt
  of the other.
\<close>

fun mark_copies :: "time \<Rightarrow> oid \<Rightarrow> message_doc option list \<Rightarrow> db \<Rightarrow> error + db" where
  "mark_copies now uid [] d = Inr d"
| "mark_copies now uid (None # copies) d = mark_copies now uid copies d"
| "mark_copies now uid (Some message # copies) d =
     (case markAsRead now uid message d of
        Inl e \<Rightarrow> Inl e
      | Inr (m', d') \<Rightarrow> mark_copies now uid copies d')"

definition mark_all :: "time \<Rightarrow> oid \<Rightarrow> oid list \<Rightarrow> db \<Rightarrow> error + db" where
  "mark_all now uid messageIds d =
     mark_copies now uid
       (map (\<lambda>messageId. find (\<lambda>m. m_id m = messageId) (messages d)) messageIds) d"

text \<open>\<^verbatim>\<open>socket.on('mark_messages_read')\<close>\<close>

definition mark_messages_read ::
  "time \<Rightarrow> gateway \<Rightarrow> socket \<Rightarrow> oid \<Rightarrow> oid list \<Rightarrow> gateway \<times> emission list" where
  "mark_messages_read now g sk cid messageIds =
     (case findConversationOf (store g) cid (userId sk) of
        None \<Rightarrow> (g, [socket_emit sk (Error_event ''Conversation not found'')])
      | Some conv \<Rightarrow>
          (case mark_all now (userId sk) messageIds (store g) of
             Inl e \<Rightarrow> (g, [socket_emit sk (Error_event ''Failed to mark messages as read'')])
           | Inr d' \<Rightarrow>
               (let g1 = g\<lparr>store := d'\<rparr>
                in (g1, [socket_to g1 sk (Conversation_room cid)
                           (Messages_read (userId sk) cid messageIds)]))))"

text \<open>\<^verbatim>\<open>socket.on('update_status')\<close>\<close>

definition update_status :: "gateway \<Rightarrow> socket \<Rightarrow> string \<Rightarrow> gateway \<times> emission list" where
  "update_status g sk st =
     (g, [socket_broadcast g sk (User_status_changed (userId sk) (sk_username sk) st)])"

text \<open>
  \<^verbatim>\<open>socket.on('disconnect')\<close>. Before the listener runs, the socket library has taken
  the socket out of its rooms and out of the namespace. \<^verbatim>\<open>setOnlineStatus(false)\<close> saves
  \<^verbatim>\<open>socket.user\<close>, the document that \<^verbatim>\<open>handleConnection\<close> saves: while that save is
  in flight, Mongoose rejects a second save of the document with
  \<^verbatim>\<open>ParallelSaveError\<close>. A failed save is caught and logged, and then nothing is
  broadcast.
\<close>

definition disconnect :: "time \<Rightarrow> gateway \<Rightarrow> socket \<Rightarrow> gateway \<times> emission list" where
  "disconnect now g sk =
     (let g0 = g\<lparr>rooms := (\<lambda>r. rooms g r - {sk_id sk}), connected := connected g - {sk_id sk}\<rparr>;
          g1 = g0\<lparr>activeUsers := (activeUsers g0)(userId sk := None)\<rparr>
      in case saving g1 (sk_id sk) of
           Some started \<Rightarrow> (g1, [])
         | None \<Rightarrow>
             (case setOnlineStatus now False None (userId sk) (store g1) of
                Inl e \<Rightarrow> (g1, [])
              | Inr d' \<Rightarrow>
                  (let g2 = g1\<lparr>store := d'\<rparr>
                   in (g2, [socket_broadcast g2 sk
                              (User_offline (userId sk) (sk_username sk) now)]))))"

text \<open>\<^verbatim>\<open>isUserOnline\<close>: the lookup in the presence registry.\<close>

definition isUserOnline :: "gateway \<Rightarrow> oid \<Rightarrow> bool" where
  "isUserOnline g uid = (activeUsers g uid \<noteq> None)"

text \<open>The events a client can send on a connection, and their dispatch.\<close>

datatype client_event =
    Join_conversation oid
  | Leave_conversation oid
  | Send_message send_data
  | Typing_start oid
  | Typing_stop oid
  | Mark_messages_read oid "oid list"
  | Update_status string
  | Disconnect

fun on_event :: "time \<Rightarrow> oid \<Rightarrow> gateway \<Rightarrow> socket \<Rightarrow> client_event \<Rightarrow> gateway \<times> emission list" where
  "on_event now new_id g sk (Join_conversation c) = join_conversation g sk c"
| "on_event now new_id g sk (Leave_conversation c) = leave_conversation g sk c"
| "on_event now new_id g sk (Send_message dat) = send_message now new_id g sk dat"
| "on_event now new_id g sk (Typing_start c) = typing_start g sk c"
| "on_event now new_id g sk (Typing_stop c) = typing_stop g sk c"
| "on_event now new_id g sk (Mark_messages_read c ids) = mark_messages_read now g sk c ids"
| "on_event now new_id g sk (Update_status st) = update_status g sk st"
| "on_event now new_id g sk Disconnect = disconnect now g sk"

text \<open>The events that reach one connection, and the conversation an event is about.\<close>

definition delivered :: "sid \<Rightarrow> emission list \<Rightarrow> server_event list" where
  "delivered s ems = map snd (filter (\<lambda>em. s \<in> fst em) ems)"

definition event_conversation :: "server_event \<Rightarrow> oid option" where
  "event_conversation ev =
     (case ev of
        User_joined_conversation u n c \<Rightarrow> Some c
      | User_left_conversation u n c \<Rightarrow> Some c
      | New_message obj \<Rightarrow> (case map_of obj ''conversation'' of Some (JId c) \<Rightarrow> Some c | _ \<Rightarrow> None)
      | User_typing u n c \<Rightarrow> Some c
      | User_stopped_typing u n c \<Rightarrow> Some c
      | Messages_read u c ids \<Rightarrow> Some c
      | _ \<Rightarrow> None)"

text \<open>The invariant of the presence fields: a stored socket id implies \<^verbatim>\<open>isOnline\<close>.\<close>

definition socket_only_online :: "db \<Rightarrow> bool" where
  "socket_only_online d = list_all (\<lambda>u. socketId u \<noteq> None \<longrightarrow> isOnline u) (users d)"

text \<open>A run of the gateway: each step is a clock value, a fresh id, a socket and its event.\<close>

fun run :: "gateway \<Rightarrow> (time \<times> oid \<times> socket \<times> client_event) list \<Rightarrow> gateway \<times> emission list" where
  "run g [] = (g, [])"
| "run g ((now, new_id, sk, ev) # evs) =
     (let (g1, out1) = on_event now new_id g sk ev;
          (g2, out2) = run g1 evs
      in (g2, out1 @ out2))"

text \<open>No stored conversation with the id \<open>C\<close> lists \<open>u\<close> as participant.\<close>

definition no_member :: "oid \<Rightarrow> oid \<Rightarrow> db \<Rightarrow> bool" where
  "no_member C u d = (\<forall>c \<in> set (conversations d). c_id c = C \<longrightarrow> u \<notin> set (participants c))"

text \<open>No event about the conversation \<open>C\<close> among those that reach the connection \<open>k\<close>.\<close>

definition quiet :: "sid \<Rightarrow> oid \<Rightarrow> emission list \<Rightarrow> bool" where
  "quiet k C out = (\<forall>e \<in> set (delivered k out). event_conversation e \<noteq> Some C)"

section \<open>A small store, for the examples\<close>

definition ex_user :: "oid \<Rightarrow> string \<Rightarrow> user_doc" where
  "ex_user i n =
     \<lparr>u_id = i, username = n, email = n @ ''@example.com'', password = ''$2a$12$hash'',
      avatar = ''https://ui-avatars.com/api/?name='' @ n, isOnline = False, lastSeen = 0,
      socketId = None, isActive = True, u_createdAt = 0, u_updatedAt = 0, u_v = 0\<rparr>"

definition ex_conversation :: "oid \<Rightarrow> conv_type \<Rightarrow> oid list \<Rightarrow> conversation_doc" where
  "ex_conversation i t ps = new_Conversation i ps t None None (hd ps) 0"

definition ex_message :: "oid \<Rightarrow> oid \<Rightarrow> oid \<Rightarrow> string \<Rightarrow> time \<Rightarrow> message_doc" where
  "ex_message i c s txt t = (new_Message i c s txt ''text'' None)\<lparr>m_createdAt := t, m_updatedAt := t\<rparr>"

text \<open>
  Alice (1), Bob (2) and Carol (3); a direct conversation 10 of Alice and Bob and a group
  11 of all three. In conversation 10 Alice wrote message 100, which Bob has read; Bob
  wrote 101, 102 (a file) and 103, which he has deleted. Alice wrote 104 to the group.
\<close>

definition ex_db :: db where
  "ex_db =
     \<lparr>users = [ex_user 1 ''alice'', ex_user 2 ''bob'', ex_user 3 ''carol''],
      conversations = [ex_conversation 10 Direct [1, 2], ex_conversation 11 Group [1, 2, 3]],
      messages =
        [(ex_message 100 10 1 ''hello'' 1000)\<lparr>readBy := [\<lparr>rr_user = 2, readAt = 1500\<rparr>]\<rparr>,
         ex_message 101 10 2 ''hi'' 2000,
         (ex_message 102 10 2 ''see the file'' 3000)
           \<lparr>m_type := ''file'', fileUrl := Some ''/uploads/a.pdf'', fileName := Some ''a.pdf'',
            fileSize := Some 1024\<rparr>,
         (ex_message 103 10 2 ''This message was deleted'' 4000)
           \<lparr>isDeleted := True, deletedAt := Some 4500\<rparr>,
         ex_message 104 11 1 ''welcome'' 5000]\<rparr>"

text \<open>The gateway over the example store before any connection, and one socket per user.\<close>

definition ex_gateway :: gateway where
  "ex_gateway =
     \<lparr>store = ex_db, activeUsers = Map.empty, rooms = (\<lambda>r. {}), connected = {},
      saving = Map.empty\<rparr>"

definition ex_socket :: "oid \<Rightarrow> string \<Rightarrow> socket" where
  "ex_socket i n = \<lparr>sk_id = ''socket-of-'' @ n, userId = i, sk_username = n\<rparr>"

text \<open>A socket connects, and the save of its account completes.\<close>

definition ex_connect :: "time \<Rightarrow> gateway \<Rightarrow> socket \<Rightarrow> gateway" where
  "ex_connect now g sk = save_completes (fst (handleConnection now g sk)) sk"

text \<open>Alice and Bob are connected; then both have joined the room of conversation 10.\<close>

definition ex_online :: gateway where
  "ex_online = ex_connect 150 (ex_connect 100 ex_gateway (ex_socket 1 ''alice'')) (ex_socket 2 ''bob'')"

definition ex_joined :: gateway where
  "ex_joined =
     fst (run ex_online
            [(300, 0, ex_socket 1 ''alice'', Join_conversation 10),
             (310, 0, ex_socket 2 ''bob'', Join_conversation 10)])"

text \<open>
  Carol connects and joins the room of the group 11; then she leaves the group with the
  REST handler, which does not touch the rooms.
\<close>

definition ex_left :: gateway where
  "ex_left =
     (let g1 = ex_connect 160 ex_online (ex_socket 3 ''carol'');
          g2 = fst (join_conversation g1 (ex_socket 3 ''carol'') 11)
      in g2\<lparr>store := fst (delete_conversation 500 (store g2) 3 11)\<rparr>)"

text \<open>Carol connects after Alice and Bob have joined the room of conversation 10.\<close>

definition ex_three :: gateway where
  "ex_three = ex_connect 320 ex_joined (ex_socket 3 ''carol'')"

text \<open>
  Bob is connected. Then Alice connects, and her transport closes while the save of her
  account is in flight; then that save completes.
\<close>

definition ex_bob :: gateway where
  "ex_bob = ex_connect 100 ex_gateway (ex_socket 2 ''bob'')"

definition ex_arrived :: gateway where
  "ex_arrived = fst (handleConnection 200 ex_bob (ex_socket 1 ''alice''))"

definition ex_closed :: gateway where
  "ex_closed = save_completes (fst (disconnect 210 ex_arrived (ex_socket 1 ''alice''))) (ex_socket 1 ''alice'')"

section \<open>Properties\<close>

subsection \<open>Serialisation hides the secrets\<close>

lemma has_key_delete_key: "has_key k (delete_key k' obj) = (k \<noteq> k' \<and> has_key k obj)"
  by (auto simp: has_key_def delete_key_def)








subsection \<open>Lists of documents\<close>

lemma find_map_replace:
  "f x' = k \<Longrightarrow>
   find (\<lambda>y. f y = k) (map (\<lambda>y. if f y = k then x' else y) xs) =
     (if k \<in> f ` set xs then Some x' else None)"
  by (induction xs) auto

lemma find_map_other:
  "k' \<noteq> k \<Longrightarrow> f x' = k \<Longrightarrow>
   find (\<lambda>y. f y = k') (map (\<lambda>y. if f y = k then x' else y) xs) = find (\<lambda>y. f y = k') xs"
  by (induction xs) auto

lemma find_key_Some: "find (\<lambda>y. f y = k) xs = Some x \<Longrightarrow> x \<in> set xs \<and> f x = k"
  by (induction xs) (auto split: if_splits)

lemma map_replace_same:
  assumes "distinct (map f xs)" and "x \<in> set xs"
  shows "map (\<lambda>y. if f y = f x then x' else y) xs = map (\<lambda>y. if y = x then x' else y) xs"
proof -
  from assms have "inj_on f (set xs)" by (simp add: distinct_map)
  with assms(2) have "\<And>y. y \<in> set xs \<Longrightarrow> (f y = f x) = (y = x)" by (auto dest: inj_onD)
  then show ?thesis by (simp cong: map_cong)
qed

lemma message_update_stored:
  "m_id m \<in> set (map m_id (messages d)) \<Longrightarrow>
   message_update now m d =
     Inr (m\<lparr>m_updatedAt := now\<rparr>,
          d\<lparr>messages := map (\<lambda>x. if m_id x = m_id m then m\<lparr>m_updatedAt := now\<rparr> else x) (messages d)\<rparr>)"
  by (simp add: message_update_def Let_def)

lemma findConversationOf_messages [simp]:
  "findConversationOf (d\<lparr>messages := ms\<rparr>) c u = findConversationOf d c u"
  by (simp add: findConversationOf_def)

subsection \<open>The unread count\<close>

text \<open>
  C2. For every conversation and identity, \<^verbatim>\<open>getUnreadCount\<close> returns the number of
  messages of the conversation whose sender is not the identity, whose read receipts do
  not name the identity and which are not soft-deleted. The messages of the store have
  distinct ids.
\<close>

theorem getUnreadCount_spec:
  assumes "distinct (map m_id (messages d))"
  shows "getUnreadCount d c u = spec_unreadCount d c u"
proof -
  let ?P = "\<lambda>m. conversation m = c \<and> sender m \<noteq> u \<and>
                 u \<notin> set (map rr_user (readBy m)) \<and> isDeleted m = False"
  from assms have dm: "distinct (messages d)" by (simp add: distinct_map)
  have "getUnreadCount d c u = length (filter ?P (messages d))"
    by (simp add: getUnreadCount_def)
  also have "\<dots> = card ({m. ?P m} \<inter> set (messages d))"
    by (rule distinct_length_filter[OF dm])
  also have "{m. ?P m} \<inter> set (messages d) =
      {m \<in> set (messages d). conversation m = c \<and> sender m \<noteq> u \<and>
         u \<notin> rr_user ` set (readBy m) \<and> \<not> isDeleted m}"
    by auto
  finally show ?thesis by (simp add: spec_unreadCount_def)
qed

text \<open>In the example store Alice has two unread messages, Bob none, and Bob one in the group.\<close>

theorem getUnreadCount_spec_witness:
  "distinct (map m_id (messages ex_db)) \<and> spec_unreadCount ex_db 10 1 = 2 \<and>
   spec_unreadCount ex_db 10 2 = 0 \<and> spec_unreadCount ex_db 11 2 = 1"
proof -
  have h: "distinct (map m_id (messages ex_db))" by code_simp
  have "getUnreadCount ex_db 10 1 = 2" and "getUnreadCount ex_db 10 2 = 0"
    and "getUnreadCount ex_db 11 2 = 1"
    by code_simp+
  then show ?thesis using h by (simp add: getUnreadCount_spec[OF h, symmetric])
qed

subsection \<open>Read receipts\<close>

lemma alreadyRead_iff: "alreadyRead u m = (filter (\<lambda>r. rr_user r = u) (readBy m) \<noteq> [])"
  by (simp add: alreadyRead_def list_ex_iff filter_empty_conv)

lemma find_map_update:
  assumes "\<And>x. g (f x) = g x"
  shows "find (\<lambda>y. g y = k) (map (\<lambda>y. if g y = k' then f y else y) xs) =
         map_option (\<lambda>y. if g y = k' then f y else y) (find (\<lambda>y. g y = k) xs)"
  using assms by (induction xs) auto

lemma markAsRead_first:
  assumes "m_id m \<in> set (map m_id (messages d))" and "\<not> alreadyRead u m"
  shows "markAsRead t u m d =
     Inr (m\<lparr>readBy := readBy m @ [\<lparr>rr_user = u, readAt = t\<rparr>], m_updatedAt := t\<rparr>,
          d\<lparr>messages := map (\<lambda>x. if m_id x = m_id m
               then x\<lparr>readBy := readBy x @ [\<lparr>rr_user = u, readAt = t\<rparr>], m_updatedAt := t\<rparr>
               else x) (messages d)\<rparr>)"
  using assms by (simp add: markAsRead_def Let_def)

lemma mark_first:
  assumes f: "find (\<lambda>x. m_id x = i) (messages d) = Some m"
    and p: "findConversationOf d (conversation m) u \<noteq> None"
    and n: "\<not> alreadyRead u m"
  shows "mark_message_read t d u i =
           (d\<lparr>messages := map (\<lambda>x. if m_id x = i
               then x\<lparr>readBy := readBy x @ [\<lparr>rr_user = u, readAt = t\<rparr>], m_updatedAt := t\<rparr>
               else x) (messages d)\<rparr>,
            Response 200 ''Message marked as read'' None)"
proof -
  from find_key_Some[OF f] have ms: "m \<in> set (messages d)" and mi: "m_id m = i" by auto
  then have "m_id m \<in> set (map m_id (messages d))" by auto
  from markAsRead_first[OF this n, of t] p f mi show ?thesis
    by (auto simp: mark_message_read_def)
qed

lemma mark_again:
  assumes f: "find (\<lambda>x. m_id x = i) (messages d) = Some m"
    and p: "findConversationOf d (conversation m) u \<noteq> None"
    and n: "alreadyRead u m"
  shows "mark_message_read t d u i = (d, Response 200 ''Message marked as read'' None)"
  using assms by (auto simp: mark_message_read_def markAsRead_def)

lemma mark_again_fold:
  assumes f: "find (\<lambda>x. m_id x = i) (messages d) = Some m"
    and p: "findConversationOf d (conversation m) u \<noteq> None"
    and n: "alreadyRead u m"
  shows "foldl (\<lambda>d t. fst (mark_message_read t d u i)) d ts = d"
  by (induction ts) (simp_all add: mark_again[OF assms])

lemma markAsRead_keeps_other:
  assumes "markAsRead t u x d = Inr (x', d')" and "m_id x \<noteq> i"
  shows "find (\<lambda>y. m_id y = i) (messages d') = find (\<lambda>y. m_id y = i) (messages d)"
proof (cases "alreadyRead u x")
  case True
  with assms show ?thesis by (simp add: markAsRead_def)
next
  case False
  with assms(1) have "messages d' = map (\<lambda>y. if m_id y = m_id x
       then y\<lparr>readBy := readBy y @ [\<lparr>rr_user = u, readAt = t\<rparr>], m_updatedAt := t\<rparr>
       else y) (messages d)"
    by (auto simp: markAsRead_def Let_def split: if_splits)
  then show ?thesis using assms(2)
    by (cases "find (\<lambda>y. m_id y = i) (messages d)")
      (auto simp: find_map_update dest: find_key_Some)
qed

lemma mark_copies_keeps:
  assumes "alreadyRead u m'"
  shows "find (\<lambda>x. m_id x = i) (messages d) = Some m' \<Longrightarrow>
         \<forall>x. Some x \<in> set copies \<longrightarrow> m_id x = i \<longrightarrow> alreadyRead u x \<Longrightarrow>
         mark_copies t u copies d = Inr d'' \<Longrightarrow>
         find (\<lambda>x. m_id x = i) (messages d'') = Some m'"
proof (induction copies arbitrary: d)
  case Nil
  then show ?case by simp
next
  case (Cons c copies)
  show ?case
  proof (cases c)
    case None
    with Cons show ?thesis by simp
  next
    case (Some x)
    from Cons.prems(3) Some obtain x' d' where
      mk: "markAsRead t u x d = Inr (x', d')" and rest: "mark_copies t u copies d' = Inr d''"
      by (auto split: sum.splits)
    have "find (\<lambda>x. m_id x = i) (messages d') = Some m'"
    proof (cases "alreadyRead u x")
      case True
      with mk Cons.prems(1) show ?thesis by (simp add: markAsRead_def)
    next
      case False
      with Cons.prems(2) Some have "m_id x \<noteq> i" by auto
      from markAsRead_keeps_other[OF mk this] Cons.prems(1) show ?thesis by simp
    qed
    from Cons.IH[OF this _ rest] Cons.prems(2) show ?thesis by simp
  qed
qed

lemma mark_all_keeps:
  assumes "alreadyRead u m'" and "find (\<lambda>x. m_id x = i) (messages d) = Some m'"
    and "mark_all t u ids d = Inr d''"
  shows "find (\<lambda>x. m_id x = i) (messages d'') = Some m'"
proof -
  have "\<forall>x. Some x \<in> set (map (\<lambda>j. find (\<lambda>m. m_id m = j) (messages d)) ids) \<longrightarrow>
            m_id x = i \<longrightarrow> alreadyRead u x"
  proof (intro allI impI)
    fix x
    assume "Some x \<in> set (map (\<lambda>j. find (\<lambda>m. m_id m = j) (messages d)) ids)" and xi: "m_id x = i"
    then obtain j where j: "find (\<lambda>m. m_id m = j) (messages d) = Some x" by auto
    from find_key_Some[OF j] xi have "j = i" by simp
    with j assms(2) have "x = m'" by simp
    with assms(1) show "alreadyRead u x" by simp
  qed
  from mark_copies_keeps[OF assms(1) assms(2) this] assms(3) show ?thesis
    by (simp add: mark_all_def)
qed

lemma markAsRead_ids:
  "markAsRead now u x d = Inr (x', d') \<Longrightarrow> map m_id (messages d') = map m_id (messages d)"
proof (cases "alreadyRead u x")
  case True
  assume "markAsRead now u x d = Inr (x', d')"
  with True show ?thesis by (simp add: markAsRead_def)
next
  case False
  assume "markAsRead now u x d = Inr (x', d')"
  with False have "messages d' = map (\<lambda>y. if m_id y = m_id x
       then y\<lparr>readBy := readBy y @ [\<lparr>rr_user = u, readAt = now\<rparr>], m_updatedAt := now\<rparr>
       else y) (messages d)"
    by (auto simp: markAsRead_def Let_def split: if_splits)
  then show ?thesis by (simp add: comp_def if_distrib[of m_id])
qed

lemma mark_copies_Inr:
  "\<forall>x. Some x \<in> set copies \<longrightarrow> m_id x \<in> set (map m_id (messages d)) \<Longrightarrow>
   \<exists>d'. mark_copies now u copies d = Inr d'"
proof (induction copies arbitrary: d)
  case Nil
  then show ?case by simp
next
  case (Cons c copies)
  show ?case
  proof (cases c)
    case None
    with Cons show ?thesis by simp
  next
    case (Some x)
    with Cons.prems have "m_id x \<in> set (map m_id (messages d))" by simp
    then obtain x' d1 where mk: "markAsRead now u x d = Inr (x', d1)"
      by (cases "alreadyRead u x") (auto simp: markAsRead_def Let_def)
    from markAsRead_ids[OF mk] Cons.prems
    have "\<forall>x. Some x \<in> set copies \<longrightarrow> m_id x \<in> set (map m_id (messages d1))" by simp
    from Cons.IH[OF this] Some mk show ?thesis by simp
  qed
qed

text \<open>The saves of the handler's loop do not fail: every copy is of a stored message.\<close>

lemma mark_all_Inr: "\<exists>d'. mark_all now u ids d = Inr d'"
  unfolding mark_all_def
  by (rule mark_copies_Inr) (auto dest!: find_key_Some[OF sym])

lemma update_keeps_receipts:
  assumes dist: "distinct (map m_id (messages d))" and x: "x \<in> set (messages d)"
    and i: "m_id x1 = m_id x" and pre: "prefix (readBy x) (readBy x1)"
    and up: "message_update t x1 d = Inr (x', d')"
  shows "list_all2 (\<lambda>a b. m_id b = m_id a \<and> prefix (readBy a) (readBy b)) (messages d) (messages d')"
proof -
  from x i have "m_id x1 \<in> set (map m_id (messages d))" by auto
  from message_update_stored[OF this] up i
  have "messages d' = map (\<lambda>y. if m_id y = m_id x then x1\<lparr>m_updatedAt := t\<rparr> else y) (messages d)"
    by auto
  also have "\<dots> = map (\<lambda>y. if y = x then x1\<lparr>m_updatedAt := t\<rparr> else y) (messages d)"
    by (rule map_replace_same[OF dist x])
  finally show ?thesis using i pre
    by (simp add: list_all2_map2 list_all2_same)
qed

lemma call_method_keeps_receipts:
  assumes dist: "distinct (map m_id (messages d))" and x: "x \<in> set (messages d)"
    and call: "call_method t meth x d = Inr (x', d')"
  shows "list_all2 (\<lambda>a b. m_id b = m_id a \<and> prefix (readBy a) (readBy b)) (messages d) (messages d')"
proof (cases meth)
  case (MarkAsRead u)
  show ?thesis
  proof (cases "alreadyRead u x")
    case True
    with call MarkAsRead have "d' = d" by (simp add: markAsRead_def)
    then show ?thesis by (simp add: list_all2_same)
  next
    case False
    from x have "m_id x \<in> set (map m_id (messages d))" by auto
    from markAsRead_first[OF this False, of t] call MarkAsRead
    have "messages d' = map (\<lambda>y. if m_id y = m_id x
       then y\<lparr>readBy := readBy y @ [\<lparr>rr_user = u, readAt = t\<rparr>], m_updatedAt := t\<rparr>
       else y) (messages d)"
      by auto
    then show ?thesis by (simp add: list_all2_map2 list_all2_same)
  qed
next
  case (EditContent c)
  with call
  have "message_update t (x\<lparr>content := trim c, isEdited := True, editedAt := Some t\<rparr>) d = Inr (x', d')"
    by (simp add: editContent_def Let_def split: if_splits)
  from update_keeps_receipts[OF dist x _ _ this] show ?thesis by simp
next
  case SoftDelete
  with call
  have "message_update t (x\<lparr>isDeleted := True, deletedAt := Some t, content := deleted_placeholder\<rparr>) d = Inr (x', d')"
    by (simp add: softDelete_def)
  from update_keeps_receipts[OF dist x _ _ this] show ?thesis by simp
qed

text \<open>
  Marking with requests that come one after the other is idempotent. Let \<open>m\<close> be a
  stored message of a conversation of \<open>u\<close> that \<open>u\<close> has not read. After one or more
  requests to the REST handler to mark it read, at the times \<open>t # ts\<close>, the stored
  message has exactly one receipt of \<open>u\<close>, with the time \<open>t\<close> of the first request; one
  more request leaves the whole store as it is, and so does a later
  \<^verbatim>\<open>mark_messages_read\<close> event of \<open>u\<close> for this message, whatever ids it names. No
  method of the message schema removes a receipt: the receipts of every stored message
  are a prefix of its receipts after the call.
\<close>

theorem mark_message_read_idempotent:
  assumes dist: "distinct (map m_id (messages d))"
    and f: "find (\<lambda>x. m_id x = i) (messages d) = Some m"
    and p: "findConversationOf d (conversation m) u \<noteq> None"
    and n: "\<not> alreadyRead u m"
  shows "\<exists>m'.
     (let d' = foldl (\<lambda>d t. fst (mark_message_read t d u i)) d (t # ts) in
        find (\<lambda>x. m_id x = i) (messages d') = Some m' \<and>
        filter (\<lambda>r. rr_user r = u) (readBy m') = [\<lparr>rr_user = u, readAt = t\<rparr>] \<and>
        mark_message_read t' d' u i = (d', Response 200 ''Message marked as read'' None) \<and>
        (\<forall>ids d''. mark_all t' u ids d' = Inr d'' \<longrightarrow>
            find (\<lambda>x. m_id x = i) (messages d'') = Some m')) \<and>
     (\<forall>meth t0 x. x \<in> set (messages d) \<longrightarrow>
        (case call_method t0 meth x d of
           Inl e \<Rightarrow> True
         | Inr (x', d') \<Rightarrow>
             list_all2 (\<lambda>a b. m_id b = m_id a \<and> prefix (readBy a) (readBy b))
               (messages d) (messages d')))"
proof -
  define m1 where "m1 = m\<lparr>readBy := readBy m @ [\<lparr>rr_user = u, readAt = t\<rparr>], m_updatedAt := t\<rparr>"
  define d1 where "d1 = d\<lparr>messages := map (\<lambda>x. if m_id x = i
               then x\<lparr>readBy := readBy x @ [\<lparr>rr_user = u, readAt = t\<rparr>], m_updatedAt := t\<rparr>
               else x) (messages d)\<rparr>"
  from find_key_Some[OF f] have ms: "m \<in> set (messages d)" and mi: "m_id m = i" by auto
  have step1: "fst (mark_message_read t d u i) = d1"
    using mark_first[OF f p n] by (simp add: d1_def)
  have f1: "find (\<lambda>x. m_id x = i) (messages d1) = Some m1"
    using f mi by (simp add: d1_def find_map_update m1_def)
  have p1: "findConversationOf d1 (conversation m1) u \<noteq> None"
    using p by (simp add: d1_def m1_def)
  have a1: "alreadyRead u m1"
    by (simp add: alreadyRead_iff m1_def)
  have fold: "foldl (\<lambda>d t. fst (mark_message_read t d u i)) d (t # ts) = d1"
    using mark_again_fold[OF f1 p1 a1] step1 by simp
  have one: "filter (\<lambda>r. rr_user r = u) (readBy m1) = [\<lparr>rr_user = u, readAt = t\<rparr>]"
    using n by (simp add: m1_def alreadyRead_iff)
  have again: "mark_message_read t' d1 u i = (d1, Response 200 ''Message marked as read'' None)"
    by (rule mark_again[OF f1 p1 a1])
  have all: "\<forall>ids d''. mark_all t' u ids d1 = Inr d'' \<longrightarrow>
            find (\<lambda>x. m_id x = i) (messages d'') = Some m1"
    using mark_all_keeps[OF a1 f1] by blast
  have third: "\<forall>meth t0 x. x \<in> set (messages d) \<longrightarrow>
        (case call_method t0 meth x d of
           Inl e \<Rightarrow> True
         | Inr (x', d') \<Rightarrow>
             list_all2 (\<lambda>a b. m_id b = m_id a \<and> prefix (readBy a) (readBy b))
               (messages d) (messages d'))"
    using call_method_keeps_receipts[OF dist] by (auto split: sum.splits)
  show ?thesis
    using f1 one again all third unfolding fold Let_def by blast
qed

theorem mark_message_read_idempotent_witness:
  "distinct (map m_id (messages ex_db)) \<and>
   find (\<lambda>x. m_id x = 101) (messages ex_db) = Some (ex_message 101 10 2 ''hi'' 2000) \<and>
   findConversationOf ex_db (conversation (ex_message 101 10 2 ''hi'' 2000)) 1 \<noteq> None \<and>
   \<not> alreadyRead 1 (ex_message 101 10 2 ''hi'' 2000) \<and>
   (\<exists>m'. find (\<lambda>x. m_id x = 101)
            (messages (foldl (\<lambda>d t. fst (mark_message_read t d 1 101)) ex_db [6000, 7000, 8000]))
          = Some m' \<and>
         filter (\<lambda>r. rr_user r = 1) (readBy m') = [\<lparr>rr_user = 1, readAt = 6000\<rparr>])"
proof -
  have h1: "distinct (map m_id (messages ex_db))" by code_simp
  have h2: "find (\<lambda>x. m_id x = 101) (messages ex_db) = Some (ex_message 101 10 2 ''hi'' 2000)"
    by code_simp
  have h3: "findConversationOf ex_db (conversation (ex_message 101 10 2 ''hi'' 2000)) 1 \<noteq> None"
    by code_simp
  have h4: "\<not> alreadyRead 1 (ex_message 101 10 2 ''hi'' 2000)" by code_simp
  from mark_message_read_idempotent[OF h1 h2 h3 h4, of 6000 "[7000, 8000]" 9000]
  show ?thesis using h1 h2 h3 h4 unfolding Let_def by blast
qed

text \<open>
  C3. Marking a message as read is to be idempotent: however often an identity marks a
  message, the message has one receipt of the identity. The handler of
  \<^verbatim>\<open>mark_messages_read\<close> misses this for an event that names a message twice. In the
  example store Alice is a participant of conversation 10 and has not read Bob's message
  101. Her event with the ids 101, 101 is answered like any other, and message 101 is
  stored with two receipts of Alice. The same two requests to the REST handler, one after
  the other, store one receipt.
\<close>

theorem mark_messages_read_twice:
  "findConversationOf (store ex_joined) 10 1 = Some (ex_conversation 10 Direct [1, 2]) \<and>
   map (\<lambda>m. (m_id m, map rr_user (readBy m))) (messages (store ex_joined)) =
     [(100, [2]), (101, []), (102, []), (103, []), (104, [])] \<and>
   snd (mark_messages_read 400 ex_joined (ex_socket 1 ''alice'') 10 [101, 101]) =
     [({''socket-of-bob''}, Messages_read 1 10 [101, 101])] \<and>
   map (\<lambda>m. (m_id m, readBy m))
     (messages (store (fst (mark_messages_read 400 ex_joined (ex_socket 1 ''alice'') 10
        [101, 101])))) =
     [(100, [\<lparr>rr_user = 2, readAt = 1500\<rparr>]),
      (101, [\<lparr>rr_user = 1, readAt = 400\<rparr>, \<lparr>rr_user = 1, readAt = 400\<rparr>]),
      (102, []), (103, []), (104, [])] \<and>
   map (\<lambda>m. (m_id m, readBy m))
     (messages (foldl (\<lambda>d t. fst (mark_message_read t d 1 101)) (store ex_joined) [400, 400])) =
     [(100, [\<lparr>rr_user = 2, readAt = 1500\<rparr>]),
      (101, [\<lparr>rr_user = 1, readAt = 400\<rparr>]),
      (102, []), (103, []), (104, [])]"
  by code_simp


subsection \<open>Trimming\<close>

lemma trim_idem: "trim (trim s) = trim s"
proof -
  define a where "a = dropWhile is_ws s"
  define b where "b = dropWhile is_ws (rev a)"
  have "rev a = takeWhile is_ws (rev a) @ b" by (simp add: b_def)
  then have "rev (rev a) = rev (takeWhile is_ws (rev a) @ b)" by simp
  then have a: "a = rev b @ rev (takeWhile is_ws (rev a))" by simp
  have 1: "dropWhile is_ws (rev b) = rev b"
  proof (cases "b = []")
    case True
    then show ?thesis by simp
  next
    case False
    then have "hd (rev b) = hd a" using a by (metis hd_append2 rev_is_Nil_conv)
    moreover have "a \<noteq> []" using a False by auto
    then have "\<not> is_ws (hd a)" unfolding a_def by (rule hd_dropWhile)
    ultimately show ?thesis using False by (simp add: dropWhile_eq_self_iff)
  qed
  have 2: "dropWhile is_ws b = b" by (simp add: b_def)
  have "trim s = rev b" by (simp add: trim_def a_def b_def)
  then show ?thesis by (simp add: trim_def[of "rev b"] 1 2)
qed

lemma trim_Nil [simp]: "trim [] = []"
  by (simp add: trim_def)


subsection \<open>Editing a message\<close>

lemma findOwnMessage_Some:
  "findOwnMessage d i caller = Some m \<Longrightarrow>
   m \<in> set (messages d) \<and> m_id m = i \<and> sender m = caller \<and> \<not> isDeleted m"
  by (auto simp: findOwnMessage_def find_Some_iff)

text \<open>
  C8, as amended. For a message of the caller that is not deleted, and new content that
  after trimming is not empty and has at most 2000 characters: the edit is accepted when
  at most 15 minutes have passed since the creation of the message, and rejected when
  more have. An accepted edit stores the trimmed content in place of the old one and
  sets \<^verbatim>\<open>isEdited\<close> and \<^verbatim>\<open>editedAt\<close>; every other field of the document but
  \<^verbatim>\<open>updatedAt\<close> is as before, so the old content is kept nowhere.
\<close>

theorem edit_window:
  assumes f: "findOwnMessage d i caller = Some m"
    and v: "valid_content (trim c)"
  shows "(now - m_createdAt m \<le> 15 * 60 * 1000 \<longrightarrow>
           (\<exists>d' js. edit_message now d caller i c =
                      (d', Response 200 ''Message edited successfully'' (Some js)) \<and>
                    find (\<lambda>x. m_id x = i) (messages d') =
                      Some (m\<lparr>content := trim c, isEdited := True, editedAt := Some now,
                              m_updatedAt := now\<rparr>) \<and>
                    map_of js ''content'' = Some (JStr (trim c)))) \<and>
         (now - m_createdAt m > 15 * 60 * 1000 \<longrightarrow>
            edit_message now d caller i c = (d, Response 400 ''Message is too old to edit'' None))"
proof -
  from findOwnMessage_Some[OF f]
  have ms: "m \<in> set (messages d)" and mi: "m_id m = i" and nd: "\<not> isDeleted m" by auto
  from v have ne: "c \<noteq> []" "length (trim c) \<noteq> 0" by (auto simp: valid_content_def)
  let ?m1 = "m\<lparr>content := trim c, isEdited := True, editedAt := Some now\<rparr>"
  have "m_id ?m1 \<in> set (map m_id (messages d))" using ms by auto
  from message_update_stored[OF this]
  have ec: "editContent now (trim c) m d =
          Inr (?m1\<lparr>m_updatedAt := now\<rparr>,
               d\<lparr>messages := map (\<lambda>x. if m_id x = i then ?m1\<lparr>m_updatedAt := now\<rparr> else x) (messages d)\<rparr>)"
    using v mi by (simp add: editContent_def trim_idem Let_def)
  have fnd: "find (\<lambda>x. m_id x = i)
               (map (\<lambda>x. if m_id x = i then ?m1\<lparr>m_updatedAt := now\<rparr> else x) (messages d)) =
             Some (?m1\<lparr>m_updatedAt := now\<rparr>)"
    using ms mi by (subst find_map_replace) auto
  have old: "now - m_createdAt m > 15 * 60 * 1000 \<longrightarrow>
            edit_message now d caller i c = (d, Response 400 ''Message is too old to edit'' None)"
    using f ne by (simp add: edit_message_def Let_def)
  have new: "now - m_createdAt m \<le> 15 * 60 * 1000 \<longrightarrow>
           (\<exists>d' js. edit_message now d caller i c =
                      (d', Response 200 ''Message edited successfully'' (Some js)) \<and>
                    find (\<lambda>x. m_id x = i) (messages d') =
                      Some (m\<lparr>content := trim c, isEdited := True, editedAt := Some now,
                              m_updatedAt := now\<rparr>) \<and>
                    map_of js ''content'' = Some (JStr (trim c)))"
    using f ne nd ec fnd
    by (simp add: edit_message_def Let_def message_toJSON_def message_toObject_def delete_key_def)
  from new old show ?thesis by blast
qed

text \<open>Bob edits message 101, created at 2000, at the edge of the window and a second later.\<close>

theorem edit_window_witness:
  "findOwnMessage ex_db 101 2 = Some (ex_message 101 10 2 ''hi'' 2000) \<and>
   valid_content (trim '' fixed '') \<and>
   status (snd (edit_message 902000 ex_db 2 101 '' fixed '')) = 200 \<and>
   edit_message 903000 ex_db 2 101 '' fixed '' =
     (ex_db, Response 400 ''Message is too old to edit'' None)"
proof -
  have h1: "findOwnMessage ex_db 101 2 = Some (ex_message 101 10 2 ''hi'' 2000)" by code_simp
  have h2: "valid_content (trim '' fixed '')" by code_simp
  have t: "m_createdAt (ex_message 101 10 2 ''hi'' 2000) = 2000" by code_simp
  from edit_window[OF h1 h2, of 902000] edit_window[OF h1 h2, of 903000]
  show ?thesis using h1 h2 by (auto simp: t)
qed

text \<open>
  The claim as it is written fails for a message that its sender has deleted: message 103
  is Bob's and 600 milliseconds old, and his edit is answered with 404.
\<close>

theorem edit_window_counterexample:
  "\<not> (\<forall>now d caller i c m.
         find (\<lambda>x. m_id x = i) (messages d) = Some m \<and> sender m = caller \<and>
         now - m_createdAt m \<le> 15 * 60 * 1000 \<longrightarrow>
         status (snd (edit_message now d caller i c)) = 200)"
proof
  assume a: "\<forall>now d caller i c m.
         find (\<lambda>x. m_id x = i) (messages d) = Some m \<and> sender m = caller \<and>
         now - m_createdAt m \<le> 15 * 60 * 1000 \<longrightarrow>
         status (snd (edit_message now d caller i c)) = 200"
  let ?m = "(ex_message 103 10 2 ''This message was deleted'' 4000)
              \<lparr>isDeleted := True, deletedAt := Some 4500\<rparr>"
  have 1: "find (\<lambda>x. m_id x = 103) (messages ex_db) = Some ?m \<and> sender ?m = 2 \<and>
           4600 - m_createdAt ?m \<le> 15 * 60 * 1000"
    by code_simp
  have 2: "status (snd (edit_message 4600 ex_db 2 103 ''restored'')) = 404"
    by code_simp
  from a 1 have "status (snd (edit_message 4600 ex_db 2 103 ''restored'')) = 200"
    by blast
  with 2 show False by simp
qed


subsection \<open>Soft deletion\<close>

lemma filter_map_replace:
  assumes "\<not> P x'"
  shows "filter P (map (\<lambda>y. if y = x then x' else y) xs) = filter (\<lambda>y. y \<noteq> x \<and> P y) xs"
  using assms by (induction xs) auto

lemma visibleMessages_set:
  "x \<in> set (visibleMessages d c) \<Longrightarrow> x \<in> set (messages d) \<and> \<not> isDeleted x"
  by (auto simp: visibleMessages_def)

lemma getConversationMessages_set:
  "getConversationMessages d c page limit = Inr ms \<Longrightarrow> set ms \<subseteq> set (visibleMessages d c)"
  by (auto simp: getConversationMessages_def Let_def split: if_splits
      dest: in_set_takeD in_set_dropD)

text \<open>
  C7, as amended. Soft-deleting a message keeps its row: the stored messages have the same
  ids and creation times at the same places, and the row now has the deletion flag and
  the placeholder as content. The listing that readers get
  (\<^verbatim>\<open>getConversationMessages\<close>) leaves the deleted message out, on every page, and
  keeps the other messages in their order. Where the deleted message itself is
  serialised, its JSON form has the placeholder as content and no file fields.
\<close>

theorem softDelete_view:
  assumes dist: "distinct (map m_id (messages d))"
    and f: "findOwnMessage d i caller = Some m"
  shows "\<exists>m' d'.
     delete_message now d caller i = (d', Response 200 ''Message deleted successfully'' None) \<and>
     m' = m\<lparr>isDeleted := True, deletedAt := Some now, content := ''This message was deleted'',
            m_updatedAt := now\<rparr> \<and>
     messages d' = map (\<lambda>x. if x = m then m' else x) (messages d) \<and>
     map (\<lambda>x. (m_id x, m_createdAt x)) (messages d') =
       map (\<lambda>x. (m_id x, m_createdAt x)) (messages d) \<and>
     (\<forall>c. visibleMessages d' c = filter (\<lambda>x. m_id x \<noteq> i) (visibleMessages d c)) \<and>
     (\<forall>c page limit ms. getConversationMessages d' c page limit = Inr ms \<longrightarrow> m' \<notin> set ms) \<and>
     map_of (message_view d' m') ''content'' = Some (JStr ''This message was deleted'') \<and>
     \<not> has_key ''fileUrl'' (message_view d' m') \<and>
     \<not> has_key ''fileName'' (message_view d' m') \<and>
     \<not> has_key ''fileSize'' (message_view d' m')"
proof -
  define m' where "m' = m\<lparr>isDeleted := True, deletedAt := Some now,
      content := ''This message was deleted'', m_updatedAt := now\<rparr>"
  define d' where "d' = d\<lparr>messages := map (\<lambda>x. if x = m then m' else x) (messages d)\<rparr>"
  from findOwnMessage_Some[OF f]
  have ms: "m \<in> set (messages d)" and mi: "m_id m = i" and nd: "\<not> isDeleted m" by auto
  let ?M = "m\<lparr>isDeleted := True, deletedAt := Some now, content := ''This message was deleted''\<rparr>"
  have "m_id ?M \<in> set (map m_id (messages d))" using ms by auto
  from message_update_stored[OF this, of now]
  have "message_update now ?M d =
          Inr (m', d\<lparr>messages := map (\<lambda>x. if m_id x = m_id m then m' else x) (messages d)\<rparr>)"
    unfolding m'_def by simp
  then have sd: "softDelete now m d = Inr (m', d')"
    unfolding map_replace_same[OF dist ms] d'_def
    by (simp add: softDelete_def deleted_placeholder_def)
  have del: "delete_message now d caller i =
               (d', Response 200 ''Message deleted successfully'' None)"
    using f sd by (simp add: delete_message_def)
  have same: "map (\<lambda>x. (m_id x, m_createdAt x)) (messages d') =
              map (\<lambda>x. (m_id x, m_createdAt x)) (messages d)"
    by (simp add: d'_def m'_def cong: map_cong)
  have inj: "\<And>x. x \<in> set (messages d) \<Longrightarrow> (x \<noteq> m) = (m_id x \<noteq> i)"
    using dist ms mi by (auto simp: distinct_map dest: inj_onD)
  have vis: "visibleMessages d' c = filter (\<lambda>x. m_id x \<noteq> i) (visibleMessages d c)" for c
  proof -
    have "filter (\<lambda>x. conversation x = c \<and> isDeleted x = False) (messages d') =
          filter (\<lambda>x. x \<noteq> m \<and> (conversation x = c \<and> isDeleted x = False)) (messages d)"
      unfolding d'_def by (simp add: filter_map_replace m'_def)
    also have "\<dots> = filter (\<lambda>x. m_id x \<noteq> i \<and> (conversation x = c \<and> isDeleted x = False)) (messages d)"
      using inj by (auto intro: filter_cong)
    also have "\<dots> = filter (\<lambda>x. m_id x \<noteq> i)
                       (filter (\<lambda>x. conversation x = c \<and> isDeleted x = False) (messages d))"
      by (simp add: conj_commute)
    finally show ?thesis by (simp add: visibleMessages_def filter_sort)
  qed
  have notin: "m' \<notin> set ms" if "getConversationMessages d' c page limit = Inr ms" for c page limit ms
    using getConversationMessages_set[OF that] visibleMessages_set[of m' d' c]
    by (auto simp: m'_def)
  have view: "map_of (message_view d' m') ''content'' = Some (JStr ''This message was deleted'') \<and>
     \<not> has_key ''fileUrl'' (message_view d' m') \<and>
     \<not> has_key ''fileName'' (message_view d' m') \<and>
     \<not> has_key ''fileSize'' (message_view d' m')"
    by (simp add: message_view_def message_toJSON_def message_toObject_def delete_key_def
        has_key_def m'_def)
  from del same vis notin view show ?thesis 
    unfolding m'_def[symmetric] by (intro exI[of _ m'] exI[of _ d']) (simp add: d'_def)
qed


text \<open>Bob deletes his file message 102.\<close>

theorem softDelete_view_witness:
  "distinct (map m_id (messages ex_db)) \<and>
   findOwnMessage ex_db 102 2 \<noteq> None \<and>
   delete_message 6000 ex_db 2 102 =
     (fst (delete_message 6000 ex_db 2 102), Response 200 ''Message deleted successfully'' None) \<and>
   map m_id (messages (fst (delete_message 6000 ex_db 2 102))) = [100, 101, 102, 103, 104] \<and>
   map m_id (visibleMessages ex_db 10) = [102, 101, 100] \<and>
   map m_id (visibleMessages (fst (delete_message 6000 ex_db 2 102)) 10) = [101, 100]"
proof -
  have h1: "distinct (map m_id (messages ex_db))" by code_simp
  obtain m where h2: "findOwnMessage ex_db 102 2 = Some m"
    by (cases "findOwnMessage ex_db 102 2") (code_simp, blast)
  have e1: "map m_id (messages ex_db) = [100, 101, 102, 103, 104]" by code_simp
  have e2: "map m_id (visibleMessages ex_db 10) = [102, 101, 100]" by code_simp
  from softDelete_view[OF h1 h2, of 6000] obtain m' d' where
    r: "delete_message 6000 ex_db 2 102 = (d', Response 200 ''Message deleted successfully'' None)"
    and s: "map (\<lambda>x. (m_id x, m_createdAt x)) (messages d') =
              map (\<lambda>x. (m_id x, m_createdAt x)) (messages ex_db)"
    and v: "visibleMessages d' 10 = filter (\<lambda>x. m_id x \<noteq> 102) (visibleMessages ex_db 10)"
    by blast
  from s have "map fst (map (\<lambda>x. (m_id x, m_createdAt x)) (messages d')) =
               map fst (map (\<lambda>x. (m_id x, m_createdAt x)) (messages ex_db))" by simp
  then have s': "map m_id (messages d') = map m_id (messages ex_db)" by (simp add: comp_def)
  have "map m_id (filter (\<lambda>x. m_id x \<noteq> 102) (visibleMessages ex_db 10)) =
        filter (\<lambda>k. k \<noteq> 102) (map m_id (visibleMessages ex_db 10))"
    by (simp add: filter_map comp_def)
  with v e2 have v': "map m_id (visibleMessages d' 10) = [101, 100]" by simp
  show ?thesis using h1 h2 r s' e1 e2 v' by simp
qed

text \<open>
  The claim as it is written has readers still see the message at its place. Alice's
  listing of conversation 10 is 100, 101, 102; after Bob has deleted 101 it is 100, 102.
\<close>

theorem softDelete_listing_counterexample:
  "\<not> (\<forall>now d caller i reader c page limit.
         findOwnMessage d i caller \<noteq> None \<longrightarrow>
         map_option (map (\<lambda>obj. map_of obj ''_id''))
           (r_data (get_messages (fst (delete_message now d caller i)) reader c page limit)) =
         map_option (map (\<lambda>obj. map_of obj ''_id''))
           (r_data (get_messages d reader c page limit)))"
proof
  assume a: "\<forall>now d caller i reader c page limit.
         findOwnMessage d i caller \<noteq> None \<longrightarrow>
         map_option (map (\<lambda>obj. map_of obj ''_id''))
           (r_data (get_messages (fst (delete_message now d caller i)) reader c page limit)) =
         map_option (map (\<lambda>obj. map_of obj ''_id''))
           (r_data (get_messages d reader c page limit))"
  have 1: "findOwnMessage ex_db 101 2 \<noteq> None" by code_simp
  have 2: "map_option (map (\<lambda>obj. map_of obj ''_id''))
             (r_data (get_messages ex_db 1 10 1 50)) =
           Some [Some (JId 100), Some (JId 101), Some (JId 102)]"
    by code_simp
  have 3: "map_option (map (\<lambda>obj. map_of obj ''_id''))
             (r_data (get_messages (fst (delete_message 6000 ex_db 2 101)) 1 10 1 50)) =
           Some [Some (JId 100), Some (JId 102)]"
    by code_simp
  from a 1 have "map_option (map (\<lambda>obj. map_of obj ''_id''))
             (r_data (get_messages (fst (delete_message 6000 ex_db 2 101)) 1 10 1 50)) =
           map_option (map (\<lambda>obj. map_of obj ''_id''))
             (r_data (get_messages ex_db 1 10 1 50))" by blast
  then have "Some [Some (JId 100), Some (JId 102)] =
             Some [Some (JId 100), Some (JId 101), Some (JId 102)]"
    unfolding 2 3 .
  then show False by simp
qed


subsection \<open>Direct conversations are created once\<close>

lemma set_uniq [simp]: "set (uniq xs) = set xs"
  by (simp add: uniq_def)

lemma distinct_uniq [simp]: "distinct (uniq xs)"
  by (simp add: uniq_def)

lemma find_append:
  "find P (xs @ ys) = (case find P xs of None \<Rightarrow> find P ys | Some x \<Rightarrow> Some x)"
  by (induction xs) auto

lemma pair_list:
  assumes "set xs = {A, B}" and "A \<noteq> B" and "distinct xs"
  shows "length xs = 2 \<and> {xs ! 0, xs ! 1} = {A, B}"
proof -
  from assms have "length xs = card {A, B}" by (metis distinct_card)
  with assms(2) have l: "length xs = 2" by simp
  then obtain x y where xs: "xs = [x, y]"
    by (cases xs; cases "tl xs"; cases "tl (tl xs)") auto
  with assms(1) show ?thesis using l by auto
qed

lemma findDirect_pair:
  assumes "{x, y} = {A, B}"
  shows "findDirectConversation d x y =
         find (\<lambda>c. c_type c = Direct \<and> A \<in> set (participants c) \<and> B \<in> set (participants c))
           (conversations d)"
proof -
  from assms have "(x = A \<and> y = B) \<or> (x = B \<and> y = A)" by (auto simp: doubleton_eq_iff)
  then have "(\<lambda>c. c_type c = Direct \<and> x \<in> set (participants c) \<and> y \<in> set (participants c)) =
        (\<lambda>c. c_type c = Direct \<and> A \<in> set (participants c) \<and> B \<in> set (participants c))"
    by auto
  then show ?thesis unfolding findDirectConversation_def by (rule arg_cong)
qed

lemma conversation_insert_Inr:
  "conversation_insert now c d = Inr (c', d') \<Longrightarrow>
   pre_save c = Inr c \<and> c' = c\<lparr>c_createdAt := now, c_updatedAt := now\<rparr> \<and>
   d' = d\<lparr>conversations := conversations d @ [c']\<rparr> \<and> c_id c \<notin> set (map c_id (conversations d))"
  by (auto simp: conversation_insert_def pre_save_def Let_def split: if_splits sum.splits)

lemma create_second:
  assumes ab: "A \<noteq> B"
    and val2: "validateConversation body2"
    and ty2: "b_type body2 \<noteq> Some Group"
    and ps2: "set (b_participants body2 @ [caller2]) = {A, B}"
    and fnd: "find (\<lambda>c. c_type c = Direct \<and> A \<in> set (participants c) \<and> B \<in> set (participants c))
           (conversations d1) = Some c"
  shows "create_conversation t2 n2 d1 caller2 body2 =
           (d1, Response 200 ''Conversation already exists'' (Some c))"
proof -
  let ?all = "uniq (b_participants body2 @ [caller2])"
  from ps2 have "set ?all = {A, B}" by simp
  from pair_list[OF this ab] have l: "length ?all = 2" and p: "{?all ! 0, ?all ! 1} = {A, B}"
    by auto
  from ty2 have ty: "(case b_type body2 of None \<Rightarrow> Direct | Some t \<Rightarrow> t) = Direct"
    by (cases "b_type body2") (auto intro: conv_type.exhaust)
  show ?thesis
    using val2 l ty fnd
    unfolding create_conversation_def Let_def findDirect_pair[OF p] by simp
qed


lemma create_first:
  assumes ab: "A \<noteq> B"
    and first: "create_conversation t1 n1 d caller1 body1 = (d1, Response st1 msg1 (Some c))"
    and ty1: "b_type body1 \<noteq> Some Group"
    and ps1: "set (b_participants body1 @ [caller1]) = {A, B}"
  shows "find (\<lambda>c. c_type c = Direct \<and> A \<in> set (participants c) \<and> B \<in> set (participants c))
           (conversations d1) = Some c"
proof -
  let ?P = "\<lambda>c. c_type c = Direct \<and> A \<in> set (participants c) \<and> B \<in> set (participants c)"
  let ?all = "uniq (b_participants body1 @ [caller1])"
  from ps1 have sa: "set ?all = {A, B}" by simp
  from pair_list[OF this ab] have l: "length ?all = 2" and p: "{?all ! 0, ?all ! 1} = {A, B}"
    by auto
  from ty1 have ty: "(case b_type body1 of None \<Rightarrow> Direct | Some t \<Rightarrow> t) = Direct"
    by (cases "b_type body1") (auto intro: conv_type.exhaust)
  from first have val: "validateConversation body1"
    by (auto simp: create_conversation_def split: if_splits)
  show ?thesis
  proof (cases "find ?P (conversations d)")
    case (Some c0)
    with first val l ty show ?thesis
      unfolding create_conversation_def Let_def findDirect_pair[OF p] by simp
  next
    case None
    let ?new = "new_Conversation n1 ?all Direct (b_name body1) (b_description body1) caller1 t1"
    from first val l ty None
    have ins: "conversation_insert t1 ?new d = Inr (c, d1)"
      unfolding create_conversation_def Let_def findDirect_pair[OF p]
      by (auto split: if_splits sum.splits)
    from conversation_insert_Inr[OF ins]
    have c: "c = ?new\<lparr>c_createdAt := t1, c_updatedAt := t1\<rparr>"
      and d1: "conversations d1 = conversations d @ [c]" by auto
    from c sa have "?P c" by (simp add: new_Conversation_def)
    with None d1 show ?thesis by (simp add: find_append)
  qed
qed

lemma create_keeps_unique:
  assumes "distinct (direct_pairs d)"
  shows "distinct (direct_pairs (fst (create_conversation t n d caller body)))"
proof -
  let ?all = "uniq (b_participants body @ [caller])"
  let ?ty = "case b_type body of None \<Rightarrow> Direct | Some t \<Rightarrow> t"
  let ?new = "new_Conversation n ?all ?ty (b_name body) (b_description body) caller t"
  show ?thesis
  proof (cases "\<exists>c d'. conversation_insert t ?new d = Inr (c, d') \<and>
                  fst (create_conversation t n d caller body) = d' \<and>
                  (?ty = Direct \<longrightarrow> length ?all = 2 \<and>
                     findDirectConversation d (?all ! 0) (?all ! 1) = None)")
    case True
    then obtain c d' where ins: "conversation_insert t ?new d = Inr (c, d')"
      and r: "fst (create_conversation t n d caller body) = d'"
      and look: "?ty = Direct \<longrightarrow> length ?all = 2 \<and>
                     findDirectConversation d (?all ! 0) (?all ! 1) = None" by blast
    from conversation_insert_Inr[OF ins]
    have c: "c = ?new\<lparr>c_createdAt := t, c_updatedAt := t\<rparr>"
      and d': "conversations d' = conversations d @ [c]" by auto
    show ?thesis
    proof (cases "?ty = Direct")
      case False
      with c d' assms r show ?thesis by (simp add: direct_pairs_def new_Conversation_def)
    next
      case True
      with look have l: "length ?all = 2"
        and none: "findDirectConversation d (?all ! 0) (?all ! 1) = None" by auto
      from l obtain x y where xy: "?all = [x, y]"
        by (cases ?all; cases "tl ?all"; cases "tl (tl ?all)") auto
      from none xy have "\<forall>c\<in>set (conversations d). c_type c = Direct \<longrightarrow>
            \<not> (x \<in> set (participants c) \<and> y \<in> set (participants c))"
        by (auto simp: findDirectConversation_def find_None_iff)
      then have "{x, y} \<notin> set (direct_pairs d)"
        by (auto simp: direct_pairs_def)
      with c d' assms r True xy show ?thesis
        by (simp add: direct_pairs_def new_Conversation_def)
    qed
  next
    case False
    then have "fst (create_conversation t n d caller body) = d"
      unfolding create_conversation_def Let_def
      by (auto split: if_splits option.splits sum.splits dest!: conversation_insert_Inr
          simp: pre_save_def new_Conversation_def)
    with assms show ?thesis by simp
  qed
qed

text \<open>
  C1. Let \<open>A\<close> and \<open>B\<close> be two users, and let a first request for a direct conversation
  of the two (the caller and the listed participants are \<open>A\<close> and \<open>B\<close>, in any order and
  with repetitions) have returned a conversation \<open>c\<close>, found or created. Then every later
  valid request for a direct conversation of the two, by either of them and in either
  order, returns \<open>c\<close> as existing and leaves the store as it is. The handler never adds a
  second direct conversation with a participant set that the store already has.
\<close>

theorem create_direct_twice:
  assumes ab: "A \<noteq> B"
    and first: "create_conversation t1 n1 d caller1 body1 = (d1, Response st1 msg1 (Some c))"
    and ty1: "b_type body1 \<noteq> Some Group"
    and ps1: "set (b_participants body1 @ [caller1]) = {A, B}"
    and val2: "validateConversation body2"
    and ty2: "b_type body2 \<noteq> Some Group"
    and ps2: "set (b_participants body2 @ [caller2]) = {A, B}"
  shows "create_conversation t2 n2 d1 caller2 body2 =
           (d1, Response 200 ''Conversation already exists'' (Some c)) \<and>
         (distinct (direct_pairs d) \<longrightarrow> distinct (direct_pairs d1))"
proof -
  from create_keeps_unique[of d t1 n1 caller1 body1] first
  have "distinct (direct_pairs d) \<longrightarrow> distinct (direct_pairs d1)" by simp
  with create_second[OF ab val2 ty2 ps2 create_first[OF ab first ty1 ps1]]
  show ?thesis by simp
qed


text \<open>Bob opens a conversation with Carol; then Carol asks for one with Bob.\<close>

theorem create_direct_twice_witness:
  "status (snd (create_conversation 7000 12 ex_db 2
      \<lparr>b_participants = [3], b_type = None, b_name = None, b_description = None\<rparr>)) = 201 \<and>
   create_conversation 8000 13
     (fst (create_conversation 7000 12 ex_db 2
        \<lparr>b_participants = [3], b_type = None, b_name = None, b_description = None\<rparr>)) 3
     \<lparr>b_participants = [2, 3], b_type = Some Direct, b_name = Some ''us'', b_description = None\<rparr> =
   (fst (create_conversation 7000 12 ex_db 2
        \<lparr>b_participants = [3], b_type = None, b_name = None, b_description = None\<rparr>),
    Response 200 ''Conversation already exists''
      (r_data (snd (create_conversation 7000 12 ex_db 2
        \<lparr>b_participants = [3], b_type = None, b_name = None, b_description = None\<rparr>)))) \<and>
   distinct (direct_pairs ex_db) \<and>
   distinct (direct_pairs (fst (create_conversation 7000 12 ex_db 2
        \<lparr>b_participants = [3], b_type = None, b_name = None, b_description = None\<rparr>)))"
proof -
  let ?b1 = "\<lparr>b_participants = [3], b_type = None, b_name = None, b_description = None\<rparr>"
  let ?b2 = "\<lparr>b_participants = [2, 3], b_type = Some Direct, b_name = Some ''us'',
              b_description = None\<rparr>"
  let ?X = "create_conversation 7000 12 ex_db 2 ?b1"
  have e: "status (snd ?X) = 201 \<and> r_data (snd ?X) \<noteq> None" by code_simp
  obtain d1 st msg dat where x: "?X = (d1, Response st msg dat)"
    by (cases ?X; cases "snd ?X") auto
  with e obtain c where c: "dat = Some c" by auto
  have ab: "(2::nat) \<noteq> 3" by simp
  have ty1: "b_type ?b1 \<noteq> Some Group" and ty2: "b_type ?b2 \<noteq> Some Group" by simp_all
  have ps1: "set (b_participants ?b1 @ [2]) = {2, 3::nat}" by auto
  have ps2: "set (b_participants ?b2 @ [3]) = {2, 3::nat}" by auto
  have val2: "validateConversation ?b2" by code_simp
  have u: "distinct (direct_pairs ex_db)" by code_simp
  from create_direct_twice[OF ab x[unfolded c] ty1 ps1 val2 ty2 ps2, of 8000 13]
  show ?thesis using e x c u by simp
qed


subsection \<open>The participant constraint\<close>

lemma pre_save_iff: "(pre_save c = Inr c') = (participants_ok c \<and> c' = c)"
  by (cases "c_type c") (auto simp: pre_save_def participants_ok_def)

lemma pre_save_Inl: "(\<exists>e. pre_save c = Inl e) = (\<not> participants_ok c)"
  by (cases "c_type c") (auto simp: pre_save_def participants_ok_def)

lemma conversation_update_Inr:
  "conversation_update now c d = Inr (c', d') \<Longrightarrow>
   participants_ok c \<and> c' = c\<lparr>c_updatedAt := now\<rparr> \<and>
   d' = d\<lparr>conversations := map (\<lambda>x. if c_id x = c_id c then c' else x) (conversations d)\<rparr>"
  by (auto simp: conversation_update_def Let_def pre_save_iff split: if_splits sum.splits)

lemma participants_ok_updatedAt [simp]:
  "participants_ok (c\<lparr>c_updatedAt := t\<rparr>) = participants_ok c"
  "participants_ok (c\<lparr>c_createdAt := t\<rparr>) = participants_ok c"
  by (simp_all add: participants_ok_def split: conv_type.splits)

lemma store_ok_update:
  assumes "store_ok d" and "conversation_update now c d = Inr (c', d')"
  shows "store_ok d'"
  using assms(1) conversation_update_Inr[OF assms(2)]
  by (auto simp: store_ok_def list_all_iff)

lemma store_ok_insert:
  assumes "store_ok d" and "conversation_insert now c d = Inr (c', d')"
  shows "store_ok d'"
  using assms(1) conversation_insert_Inr[OF assms(2)]
  by (auto simp: store_ok_def pre_save_iff)

lemma store_ok_create:
  assumes "store_ok d"
  shows "store_ok (fst (create_conversation now n d caller body))"
  using assms unfolding create_conversation_def Let_def
  by (auto split: if_splits option.splits sum.splits intro: store_ok_insert)

lemma store_ok_leave:
  assumes "store_ok d"
  shows "store_ok (fst (delete_conversation now d caller i))"
  using assms unfolding delete_conversation_def removeParticipant_def Let_def
  by (auto split: if_splits option.splits sum.splits intro: store_ok_update)

lemma store_ok_add:
  assumes "store_ok d"
  shows "store_ok (fst (add_participant now d caller i u))"
  using assms unfolding add_participant_def addParticipant_def Let_def
  by (auto split: if_splits option.splits sum.splits intro: store_ok_update)

lemma create_bad_count:
  assumes "ty = (case b_type body of None \<Rightarrow> Direct | Some t \<Rightarrow> t)"
    and "ps = uniq (b_participants body @ [caller])"
    and "(ty = Direct \<and> length ps \<noteq> 2) \<or> (ty = Group \<and> length ps < 2)"
  shows "create_conversation now n d caller body \<in>
           {(d, Response 400 ''Validation failed'' None),
            (d, Response 400 ''One or more participants not found'' None),
            (d, Response 500 ''Server error creating conversation'' None)}"
proof -
  have "\<not> participants_ok (new_Conversation n ps ty (b_name body) (b_description body) caller now)"
    using assms(3) by (auto simp: participants_ok_def new_Conversation_def)
  then have "\<And>c' d'. conversation_insert now
       (new_Conversation n ps ty (b_name body) (b_description body) caller now) d \<noteq> Inr (c', d')"
    by (auto dest!: conversation_insert_Inr simp: pre_save_iff)
  then show ?thesis using assms
    unfolding create_conversation_def Let_def
    by (auto split: sum.splits)
qed

lemma map_c_id_const:
  "c_id c' = k \<Longrightarrow> map (\<lambda>x. c_id (if c_id x = k then c' else x)) xs = map c_id xs"
  by (induction xs) auto

lemma map_c_id_replace:
  "(\<And>x. c_id (f x) = c_id x) \<Longrightarrow>
   map (\<lambda>x. c_id (if c_id x = k then f x else x)) xs = map c_id xs"
  by (induction xs) auto

lemma unique_update:
  assumes "unique_ids d" and "conversation_update now c d = Inr (c', d')"
  shows "unique_ids d'"
  using assms(1) conversation_update_Inr[OF assms(2)]
  by (simp add: unique_ids_def comp_def map_c_id_const)

lemma unique_insert:
  assumes "unique_ids d" and "conversation_insert now c d = Inr (c', d')"
  shows "unique_ids d'"
  using assms(1) conversation_insert_Inr[OF assms(2)]
  by (auto simp: unique_ids_def)

lemma unique_create:
  assumes "unique_ids d"
  shows "unique_ids (fst (create_conversation now n d caller body))"
  using assms unfolding create_conversation_def Let_def
  by (auto split: if_splits option.splits sum.splits intro: unique_insert)

lemma unique_leave:
  assumes "unique_ids d"
  shows "unique_ids (fst (delete_conversation now d caller i))"
  using assms unfolding delete_conversation_def removeParticipant_def Let_def
  by (auto split: if_splits option.splits sum.splits intro: unique_update)

lemma unique_add:
  assumes "unique_ids d"
  shows "unique_ids (fst (add_participant now d caller i u))"
  using assms unfolding add_participant_def addParticipant_def Let_def
  by (auto split: if_splits option.splits sum.splits intro: unique_update)

lemma message_insert_conversations:
  "message_insert now m d = Inr (m', d') \<Longrightarrow> conversations d' = conversations d"
  by (auto simp: message_insert_def Let_def split: if_splits)

lemma setOnlineStatus_conversations:
  "setOnlineStatus now on sock u d = Inr d' \<Longrightarrow> conversations d' = conversations d"
  by (auto simp: setOnlineStatus_def split: if_splits)

lemma mark_copies_conversations:
  "mark_copies now u copies d = Inr d' \<Longrightarrow> conversations d' = conversations d"
proof (induction copies arbitrary: d)
  case Nil
  then show ?case by simp
next
  case (Cons c copies)
  then show ?case
    by (cases c) (auto simp: markAsRead_def Let_def split: sum.splits if_splits)
qed

lemma mark_all_conversations:
  "mark_all now u ids d = Inr d' \<Longrightarrow> conversations d' = conversations d"
  by (auto simp: mark_all_def dest: mark_copies_conversations)

lemma same_conversations:
  "conversations d' = conversations d \<Longrightarrow>
   store_ok d' = store_ok d \<and> unique_ids d' = unique_ids d"
  by (simp add: store_ok_def unique_ids_def)

lemma save_pushed_keeps:
  assumes ok: "store_ok d" and un: "unique_ids d"
    and f: "find (\<lambda>c. c_id c = i) (conversations d) = Some conv"
    and g: "c_type conv = Group" and ci: "c_id c = i"
    and s: "save_pushed now c added d = Inr d'"
  shows "store_ok d' \<and> unique_ids d'"
proof -
  let ?f = "\<lambda>x. x\<lparr>participants := participants x @ added, c_updatedAt := now\<rparr>"
  from s ci have d': "conversations d' = map (\<lambda>x. if c_id x = i then ?f x else x) (conversations d)"
    by (auto simp: save_pushed_def split: sum.splits if_splits)
  from find_key_Some[OF f] have cs: "conv \<in> set (conversations d)" and cid: "c_id conv = i"
    by auto
  from un have inj: "inj_on c_id (set (conversations d))"
    by (simp add: unique_ids_def distinct_map)
  have "participants_ok (?f x)" if x: "x \<in> set (conversations d)" and xi: "c_id x = i" for x
  proof -
    from inj x cs xi cid have "x = conv" by (auto dest: inj_onD)
    moreover from ok x have "participants_ok x" by (simp add: store_ok_def list_all_iff)
    ultimately show ?thesis using g by (simp add: participants_ok_def)
  qed
  then have 1: "store_ok d'" using ok by (auto simp: store_ok_def list_all_iff d')
  have 2: "unique_ids d'" using un by (simp add: unique_ids_def d' comp_def map_c_id_replace)
  from 1 2 show ?thesis by simp
qed

lemma save_activity_keeps:
  assumes ok: "store_ok d" and un: "unique_ids d"
    and s: "save_activity now mid c d = Inr d'"
  shows "store_ok d' \<and> unique_ids d'"
proof -
  let ?f = "\<lambda>x. x\<lparr>lastActivity := now, lastMessage := Some mid, c_updatedAt := now\<rparr>"
  from s have d': "conversations d' =
      map (\<lambda>x. if c_id x = c_id c then ?f x else x) (conversations d)"
    by (auto simp: save_activity_def split: sum.splits if_splits)
  have "participants_ok (?f x) = participants_ok x" for x
    by (simp add: participants_ok_def split: conv_type.splits)
  then have 1: "store_ok d'" using ok by (auto simp: store_ok_def list_all_iff d')
  have 2: "unique_ids d'" using un by (simp add: unique_ids_def d' comp_def map_c_id_replace)
  from 1 2 show ?thesis by simp
qed

lemma add_group_members_keeps:
  assumes ok: "store_ok d" and un: "unique_ids d"
  shows "store_ok (fst (add_group_members now n d caller i us)) \<and>
         unique_ids (fst (add_group_members now n d caller i us))"
proof (cases "find (\<lambda>c. c_id c = i) (conversations d)")
  case None
  with assms show ?thesis by (simp add: add_group_members_def Let_def)
next
  case (Some conv)
  define members where "members = populated_participants d conv"
  define addedUsers where "addedUsers =
    filter (\<lambda>u. u_id u \<notin> set members) (filter (\<lambda>u. u_id u \<in> set us \<and> isActive u) (users d))"
  define loaded where "loaded = conv\<lparr>participants := members @ map u_id addedUsers\<rparr>"
  define content where "content = join_comma (map username addedUsers) @ '' '' @
      (if length addedUsers = 1 then ''was'' else ''were'') @ '' added to the group''"
  from find_key_Some[OF Some] have li: "c_id loaded = i" by (simp add: loaded_def)
  have stay: "fst (add_group_members now n d caller i us) = d \<or>
    (c_type conv = Group \<and>
     (\<exists>d1. save_pushed now loaded (map u_id addedUsers) d = Inr d1 \<and>
        (fst (add_group_members now n d caller i us) = d1 \<or>
         (\<exists>m d2. message_insert now (new_Message n i caller content ''system'' None) d1
                    = Inr (m, d2) \<and>
            (fst (add_group_members now n d caller i us) = d2 \<or>
             (\<exists>d3. save_activity now (m_id m) loaded d2 = Inr d3 \<and>
                    fst (add_group_members now n d caller i us) = d3))))))"
    unfolding add_group_members_def Let_def Some option.case
      members_def[symmetric] addedUsers_def[symmetric] loaded_def[symmetric]
      content_def[symmetric]
    by (auto split: sum.splits)
  then show ?thesis
  proof (elim disjE conjE exE)
    assume "fst (add_group_members now n d caller i us) = d"
    with assms show ?thesis by simp
  next
    fix d1
    assume g: "c_type conv = Group"
      and p: "save_pushed now loaded (map u_id addedUsers) d = Inr d1"
      and r: "fst (add_group_members now n d caller i us) = d1"
    from save_pushed_keeps[OF ok un Some g li p] r show ?thesis by simp
  next
    fix d1 m d2
    assume g: "c_type conv = Group"
      and p: "save_pushed now loaded (map u_id addedUsers) d = Inr d1"
      and mi: "message_insert now (new_Message n i caller content ''system'' None) d1 = Inr (m, d2)"
      and r: "fst (add_group_members now n d caller i us) = d2"
    from save_pushed_keeps[OF ok un Some g li p]
      same_conversations[OF message_insert_conversations[OF mi]] r
    show ?thesis by simp
  next
    fix d1 m d2 d3
    assume g: "c_type conv = Group"
      and p: "save_pushed now loaded (map u_id addedUsers) d = Inr d1"
      and mi: "message_insert now (new_Message n i caller content ''system'' None) d1 = Inr (m, d2)"
      and a: "save_activity now (m_id m) loaded d2 = Inr d3"
      and r: "fst (add_group_members now n d caller i us) = d3"
    from save_pushed_keeps[OF ok un Some g li p]
      same_conversations[OF message_insert_conversations[OF mi]]
    have "store_ok d2" and "unique_ids d2" by simp_all
    from save_activity_keeps[OF this a] r show ?thesis by simp
  qed
qed

lemma removeParticipant_Inr:
  "removeParticipant now u c d = Inr (c1, d1) \<Longrightarrow> \<exists>c0. conversation_update now c0 d = Inr (c1, d1)"
  by (auto simp: removeParticipant_def Let_def)

lemma updateLastActivity_Inr:
  "updateLastActivity now mid c d = Inr (c1, d1) \<Longrightarrow> \<exists>c0. conversation_update now c0 d = Inr (c1, d1)"
  by (auto simp: updateLastActivity_def Let_def)

lemma remove_group_member_keeps:
  assumes ok: "store_ok d" and un: "unique_ids d"
  shows "store_ok (fst (remove_group_member now n d caller i u)) \<and>
         unique_ids (fst (remove_group_member now n d caller i u))"
proof (cases "find (\<lambda>c. c_id c = i) (conversations d)")
  case None
  with assms show ?thesis by (simp add: remove_group_member_def Let_def)
next
  case (Some conv)
  show ?thesis
  proof (cases "find (\<lambda>x. u_id x = u) (users d)")
    case None
    with assms Some show ?thesis by (simp add: remove_group_member_def Let_def)
  next
    case found: (Some userToRemove)
    define loaded where "loaded = conv\<lparr>participants := populated_participants d conv\<rparr>"
    define m0 where "m0 = new_Message n i caller
        (if caller = u then username userToRemove @ '' left the group''
         else username userToRemove @ '' was removed from the group'') ''system'' None"
    have stay: "fst (remove_group_member now n d caller i u) = d \<or>
      (\<exists>c1 d1. removeParticipant now u loaded d = Inr (c1, d1) \<and>
         (fst (remove_group_member now n d caller i u) = d1 \<or>
          (\<exists>m d2. message_insert now m0 d1 = Inr (m, d2) \<and>
             (fst (remove_group_member now n d caller i u) = d2 \<or>
              (\<exists>c2 d3. updateLastActivity now (Some (m_id m)) c1 d2 = Inr (c2, d3) \<and>
                     fst (remove_group_member now n d caller i u) = d3)))))"
      unfolding remove_group_member_def Let_def Some found option.case
        loaded_def[symmetric] m0_def[symmetric]
      by (auto split: sum.splits)
    then show ?thesis
    proof (elim disjE conjE exE)
      assume "fst (remove_group_member now n d caller i u) = d"
      with assms show ?thesis by simp
    next
      fix c1 d1
      assume p: "removeParticipant now u loaded d = Inr (c1, d1)"
        and r: "fst (remove_group_member now n d caller i u) = d1"
      from removeParticipant_Inr[OF p] obtain c0 where
        p': "conversation_update now c0 d = Inr (c1, d1)" by blast
      from store_ok_update[OF ok p'] unique_update[OF un p'] r show ?thesis by simp
    next
      fix c1 d1 m d2
      assume p: "removeParticipant now u loaded d = Inr (c1, d1)"
        and mi: "message_insert now m0 d1 = Inr (m, d2)"
        and r: "fst (remove_group_member now n d caller i u) = d2"
      from removeParticipant_Inr[OF p] obtain c0 where
        p': "conversation_update now c0 d = Inr (c1, d1)" by blast
      from store_ok_update[OF ok p'] unique_update[OF un p']
        same_conversations[OF message_insert_conversations[OF mi]] r
      show ?thesis by simp
    next
      fix c1 d1 m d2 c2 d3
      assume p: "removeParticipant now u loaded d = Inr (c1, d1)"
        and mi: "message_insert now m0 d1 = Inr (m, d2)"
        and a: "updateLastActivity now (Some (m_id m)) c1 d2 = Inr (c2, d3)"
        and r: "fst (remove_group_member now n d caller i u) = d3"
      from removeParticipant_Inr[OF p] obtain c0 where
        p': "conversation_update now c0 d = Inr (c1, d1)" by blast
      from updateLastActivity_Inr[OF a] obtain c3 where
        a': "conversation_update now c3 d2 = Inr (c2, d3)" by blast
      from store_ok_update[OF ok p'] unique_update[OF un p']
        same_conversations[OF message_insert_conversations[OF mi]]
      have "store_ok d2" and "unique_ids d2" by simp_all
      from store_ok_update[OF this(1) a'] unique_update[OF this(2) a'] r show ?thesis by simp
    qed
  qed
qed

lemma store_ok_subseq:
  assumes "store_ok d"
    and "subseq (map (\<lambda>c. (c_type c, participants c)) (conversations d'))
                (map (\<lambda>c. (c_type c, participants c)) (conversations d))"
  shows "store_ok d'"
proof -
  have ok: "participants_ok c = (case (c_type c, participants c) of
      (Direct, ps) \<Rightarrow> length ps = 2 | (Group, ps) \<Rightarrow> 2 \<le> length ps)" for c
    by (simp add: participants_ok_def split: conv_type.splits)
  have "participants_ok c" if "c \<in> set (conversations d')" for c
  proof -
    from that have "(c_type c, participants c) \<in>
        set (map (\<lambda>c. (c_type c, participants c)) (conversations d'))" by auto
    with assms(2) have "(c_type c, participants c) \<in>
        set (map (\<lambda>c. (c_type c, participants c)) (conversations d))"
      by (rule list_emb_set) simp
    then obtain c0 where c0: "c0 \<in> set (conversations d)" and eq: "c_type c0 = c_type c"
      "participants c0 = participants c" by auto
    from assms(1) c0 have "participants_ok c0" by (simp add: store_ok_def list_all_iff)
    with eq show ?thesis by (simp add: participants_ok_def split: conv_type.splits)
  qed
  then show ?thesis by (simp add: store_ok_def list_all_iff)
qed


lemma delete_admin_user_keeps:
  "conversations (fst (delete_admin_user d u)) = conversations d"
  by (simp add: delete_admin_user_def split: option.splits)

lemma send_message_keeps:
  assumes ok: "store_ok (store g)" and un: "unique_ids (store g)"
  shows "store_ok (store (fst (send_message now n g sk dat))) \<and>
         unique_ids (store (fst (send_message now n g sk dat)))"
proof (cases "findConversationOf (store g) (sd_conversationId dat) (userId sk)")
  case None
  with assms show ?thesis by (simp add: send_message_def Let_def)
next
  case (Some conv)
  define m0 where "m0 = new_Message n (sd_conversationId dat) (userId sk) (sd_content dat)
      (case sd_type dat of None \<Rightarrow> ''text'' | Some t \<Rightarrow> t) (sd_replyTo dat)"
  have stay: "store (fst (send_message now n g sk dat)) = store g \<or>
    (\<exists>m d1. message_insert now m0 (store g) = Inr (m, d1) \<and>
       (store (fst (send_message now n g sk dat)) = d1 \<or>
        (\<exists>c1 d2. updateLastActivity now (Some (m_id m)) conv d1 = Inr (c1, d2) \<and>
           store (fst (send_message now n g sk dat)) = d2)))"
    unfolding send_message_def Let_def Some option.case m0_def[symmetric]
    by (auto split: sum.splits)
  then show ?thesis
  proof (elim disjE conjE exE)
    assume "store (fst (send_message now n g sk dat)) = store g"
    with assms show ?thesis by simp
  next
    fix m d1
    assume mi: "message_insert now m0 (store g) = Inr (m, d1)"
      and r: "store (fst (send_message now n g sk dat)) = d1"
    from same_conversations[OF message_insert_conversations[OF mi]] assms r
    show ?thesis by simp
  next
    fix m d1 c1 d2
    assume mi: "message_insert now m0 (store g) = Inr (m, d1)"
      and a: "updateLastActivity now (Some (m_id m)) conv d1 = Inr (c1, d2)"
      and r: "store (fst (send_message now n g sk dat)) = d2"
    from updateLastActivity_Inr[OF a] obtain c3 where
      a': "conversation_update now c3 d1 = Inr (c1, d2)" by blast
    from same_conversations[OF message_insert_conversations[OF mi]] assms
    have "store_ok d1" and "unique_ids d1" by simp_all
    from store_ok_update[OF this(1) a'] unique_update[OF this(2) a'] r show ?thesis by simp
  qed
qed

lemma on_event_keeps:
  assumes ok: "store_ok (store g)" and un: "unique_ids (store g)"
  shows "store_ok (store (fst (on_event now n g sk ev))) \<and>
         unique_ids (store (fst (on_event now n g sk ev)))"
proof (cases ev)
  case (Send_message dat)
  with send_message_keeps[OF assms] show ?thesis by simp
next
  case (Mark_messages_read c ids)
  have "conversations (store (fst (mark_messages_read now g sk c ids))) = conversations (store g)"
    by (auto simp: mark_messages_read_def Let_def split: option.splits sum.splits
        dest: mark_all_conversations)
  from same_conversations[OF this] assms Mark_messages_read show ?thesis by simp
next
  case Disconnect
  have "conversations (store (fst (disconnect now g sk))) = conversations (store g)"
    by (auto simp: disconnect_def Let_def split: option.splits sum.splits
        dest: setOnlineStatus_conversations)
  from same_conversations[OF this] assms Disconnect show ?thesis by simp
qed (use assms in \<open>auto simp: join_conversation_def leave_conversation_def typing_start_def
      typing_stop_def update_status_def socket_join_def socket_leave_def Let_def
      split: option.splits\<close>)

lemma save_completes_keeps:
  "conversations (store (save_completes g sk)) = conversations (store g)"
  by (auto simp: save_completes_def Let_def split: option.splits sum.splits
      dest: setOnlineStatus_conversations)

text \<open>
  C6. Every stored conversation meets the participant constraint: a direct conversation
  has exactly 2 participants and a group at least 2. Creating a conversation fails, and
  stores nothing, when the type is direct and the number of participants (the caller
  included, repetitions removed) is not 2, or the type is group and the number is below
  2. Every save of a conversation document checks the constraint. And every handler that
  a request or a socket event reaches keeps the constraint in every stored conversation:
  the handlers that write a participant list (create, leave, add a participant, add
  members to a group, remove a member from a group), the deletion of an account by an
  administrator, which leaves the conversations as they are, and the handlers of the
  gateway with the save that a connection starts. The ids of the stored conversations are
  distinct, as the database has them, and stay so. A write that deletes conversations or
  changes other paths of them, as the bulk operations of
  \<^verbatim>\<open>routes/adminConversations.js\<close> do, leaves the types and the participant lists of
  the conversations that stay as they are, and so keeps the constraint.
\<close>

theorem participants_constraint:
  "(ty = (case b_type body of None \<Rightarrow> Direct | Some t \<Rightarrow> t) \<and>
    ps = uniq (b_participants body @ [caller]) \<and>
    ((ty = Direct \<and> length ps \<noteq> 2) \<or> (ty = Group \<and> length ps < 2)) \<longrightarrow>
      create_conversation now n d caller body \<in>
        {(d, Response 400 ''Validation failed'' None),
         (d, Response 400 ''One or more participants not found'' None),
         (d, Response 500 ''Server error creating conversation'' None)}) \<and>
   (store_ok d \<and> unique_ids d \<longrightarrow>
      list_all (\<lambda>d'. store_ok d' \<and> unique_ids d')
        [fst (create_conversation now n d caller body),
         fst (delete_conversation now d caller i),
         fst (add_participant now d caller i u),
         fst (add_group_members now n d caller i us),
         fst (remove_group_member now n d caller i u),
         fst (delete_admin_user d u),
         store (fst (on_event now n (g\<lparr>store := d\<rparr>) sk ev)),
         store (save_completes (g\<lparr>store := d\<rparr>) sk)] \<and>
      (\<forall>c c' d'. conversation_insert now c d = Inr (c', d') \<longrightarrow>
          participants_ok c \<and> store_ok d' \<and> unique_ids d') \<and>
      (\<forall>c c' d'. conversation_update now c d = Inr (c', d') \<longrightarrow>
          participants_ok c \<and> store_ok d' \<and> unique_ids d')) \<and>
   (store_ok d \<and>
    subseq (map (\<lambda>c. (c_type c, participants c)) (conversations d2))
           (map (\<lambda>c. (c_type c, participants c)) (conversations d)) \<longrightarrow>
      store_ok d2)"
proof -
  have bad: "ty = (case b_type body of None \<Rightarrow> Direct | Some t \<Rightarrow> t) \<and>
    ps = uniq (b_participants body @ [caller]) \<and>
    ((ty = Direct \<and> length ps \<noteq> 2) \<or> (ty = Group \<and> length ps < 2)) \<longrightarrow>
      create_conversation now n d caller body \<in>
        {(d, Response 400 ''Validation failed'' None),
         (d, Response 400 ''One or more participants not found'' None),
         (d, Response 500 ''Server error creating conversation'' None)}"
    using create_bad_count[of ty body ps caller now n d] by blast
  have ins: "\<forall>c c' d'. conversation_insert now c d = Inr (c', d') \<longrightarrow>
      participants_ok c \<and> store_ok d' \<and> unique_ids d'"
    if "store_ok d" and "unique_ids d"
    using that
    by (auto dest: store_ok_insert unique_insert conversation_insert_Inr simp: pre_save_iff)
  have upd: "\<forall>c c' d'. conversation_update now c d = Inr (c', d') \<longrightarrow>
      participants_ok c \<and> store_ok d' \<and> unique_ids d'"
    if "store_ok d" and "unique_ids d"
    using that by (auto dest: store_ok_update unique_update conversation_update_Inr)
  have handlers: "list_all (\<lambda>d'. store_ok d' \<and> unique_ids d')
        [fst (create_conversation now n d caller body),
         fst (delete_conversation now d caller i),
         fst (add_participant now d caller i u),
         fst (add_group_members now n d caller i us),
         fst (remove_group_member now n d caller i u),
         fst (delete_admin_user d u),
         store (fst (on_event now n (g\<lparr>store := d\<rparr>) sk ev)),
         store (save_completes (g\<lparr>store := d\<rparr>) sk)]"
    if ok: "store_ok d" and un: "unique_ids d"
  proof -
    have 1: "store_ok (fst (create_conversation now n d caller body)) \<and>
             unique_ids (fst (create_conversation now n d caller body))"
      using store_ok_create[OF ok] unique_create[OF un] by simp
    have 2: "store_ok (fst (delete_conversation now d caller i)) \<and>
             unique_ids (fst (delete_conversation now d caller i))"
      using store_ok_leave[OF ok] unique_leave[OF un] by simp
    have 3: "store_ok (fst (add_participant now d caller i u)) \<and>
             unique_ids (fst (add_participant now d caller i u))"
      using store_ok_add[OF ok] unique_add[OF un] by simp
    note 4 = add_group_members_keeps[OF ok un, of now n caller i us]
    note 5 = remove_group_member_keeps[OF ok un, of now n caller i u]
    have 6: "store_ok (fst (delete_admin_user d u)) \<and> unique_ids (fst (delete_admin_user d u))"
      using same_conversations[OF delete_admin_user_keeps[of d u]] ok un by simp
    have 7: "store_ok (store (fst (on_event now n (g\<lparr>store := d\<rparr>) sk ev))) \<and>
             unique_ids (store (fst (on_event now n (g\<lparr>store := d\<rparr>) sk ev)))"
      using on_event_keeps[of "g\<lparr>store := d\<rparr>" now n sk ev] ok un by simp
    have 8: "store_ok (store (save_completes (g\<lparr>store := d\<rparr>) sk)) \<and>
             unique_ids (store (save_completes (g\<lparr>store := d\<rparr>) sk))"
      using same_conversations[OF save_completes_keeps[of "g\<lparr>store := d\<rparr>" sk]] ok un by simp
    from 1 2 3 4 5 6 7 8 show ?thesis by simp
  qed
  have other: "store_ok d \<and>
    subseq (map (\<lambda>c. (c_type c, participants c)) (conversations d2))
           (map (\<lambda>c. (c_type c, participants c)) (conversations d)) \<longrightarrow>
      store_ok d2"
    using store_ok_subseq[of d d2] by blast
  from bad ins upd handlers other show ?thesis by blast
qed

text \<open>
  In the example store a direct conversation of three is refused and Alice cannot leave
  the direct conversation 10. Alice, who created the group 11, removes Carol from it;
  Bob is not removed after that, because the group would be left with one participant;
  and Bob adds Carol again. The store without its direct conversations meets the
  constraint.
\<close>

theorem participants_constraint_witness:
  "store_ok ex_db \<and> unique_ids ex_db \<and>
   create_conversation 7000 12 ex_db 1
     \<lparr>b_participants = [2, 3], b_type = Some Direct, b_name = None, b_description = None\<rparr> =
     (ex_db, Response 500 ''Server error creating conversation'' None) \<and>
   delete_conversation 7000 ex_db 1 10 =
     (ex_db, Response 500 ''Server error leaving conversation'' None) \<and>
   snd (remove_group_member 7000 12 ex_db 1 11 3) =
     Response 200 ''Member removed successfully'' (Some 2) \<and>
   map participants (conversations (fst (remove_group_member 7000 12 ex_db 1 11 3))) =
     [ [1, 2], [1, 2] ] \<and>
   map content (filter (\<lambda>m. m_id m = 12) (messages (fst (remove_group_member 7000 12 ex_db 1 11 3)))) =
     [''carol was removed from the group''] \<and>
   remove_group_member 7100 13 (fst (remove_group_member 7000 12 ex_db 1 11 3)) 1 11 2 =
     (fst (remove_group_member 7000 12 ex_db 1 11 3),
      Response 500 ''Server error removing group member'' None) \<and>
   snd (add_group_members 7200 13 (fst (remove_group_member 7000 12 ex_db 1 11 3)) 2 11 [3]) =
     Response 200 ''1 member(s) added successfully'' (Some 3) \<and>
   map participants (conversations
     (fst (add_group_members 7200 13 (fst (remove_group_member 7000 12 ex_db 1 11 3)) 2 11 [3]))) =
     [ [1, 2], [1, 2, 3] ] \<and>
   list_all (\<lambda>d'. store_ok d' \<and> unique_ids d')
     [fst (create_conversation 7000 12 ex_db 1
        \<lparr>b_participants = [2, 3], b_type = Some Direct, b_name = None, b_description = None\<rparr>),
      fst (delete_conversation 7000 ex_db 1 11),
      fst (add_participant 7000 ex_db 1 11 3),
      fst (add_group_members 7000 12 ex_db 1 11 [3]),
      fst (remove_group_member 7000 12 ex_db 1 11 3),
      fst (delete_admin_user ex_db 3),
      store (fst (on_event 7000 12 (ex_gateway\<lparr>store := ex_db\<rparr>) (ex_socket 1 ''alice'')
        (Send_message \<lparr>sd_conversationId = 11, sd_content = ''hello'', sd_type = None,
           sd_replyTo = None\<rparr>))),
      store (save_completes (ex_gateway\<lparr>store := ex_db\<rparr>) (ex_socket 1 ''alice''))] \<and>
   subseq (map (\<lambda>c. (c_type c, participants c))
             (conversations (ex_db\<lparr>conversations := filter (\<lambda>c. c_type c \<noteq> Direct)
                (conversations ex_db)\<rparr>)))
          (map (\<lambda>c. (c_type c, participants c)) (conversations ex_db)) \<and>
   store_ok (ex_db\<lparr>conversations := filter (\<lambda>c. c_type c \<noteq> Direct) (conversations ex_db)\<rparr>)"
proof -
  let ?b = "\<lparr>b_participants = [2, 3], b_type = Some Direct, b_name = None, b_description = None\<rparr>"
  let ?d1 = "fst (remove_group_member 7000 12 ex_db 1 11 3)"
  have h: "store_ok ex_db" and h': "unique_ids ex_db" by code_simp+
  have e1: "create_conversation 7000 12 ex_db 1 ?b =
     (ex_db, Response 500 ''Server error creating conversation'' None)" by code_simp
  have e2: "delete_conversation 7000 ex_db 1 10 =
     (ex_db, Response 500 ''Server error leaving conversation'' None)" by code_simp
  have e3: "snd (remove_group_member 7000 12 ex_db 1 11 3) =
     Response 200 ''Member removed successfully'' (Some 2)" by code_simp
  have e4: "map participants (conversations ?d1) = [ [1, 2], [1, 2] ]" by code_simp
  have e5: "map content (filter (\<lambda>m. m_id m = 12) (messages ?d1)) =
     [''carol was removed from the group'']" by code_simp
  have e6: "remove_group_member 7100 13 ?d1 1 11 2 =
     (?d1, Response 500 ''Server error removing group member'' None)" by code_simp
  have e7: "snd (add_group_members 7200 13 ?d1 2 11 [3]) =
     Response 200 ''1 member(s) added successfully'' (Some 3)" by code_simp
  have e8: "map participants (conversations (fst (add_group_members 7200 13 ?d1 2 11 [3]))) =
     [ [1, 2], [1, 2, 3] ]" by code_simp
  have e9: "subseq (map (\<lambda>c. (c_type c, participants c))
             (conversations (ex_db\<lparr>conversations := filter (\<lambda>c. c_type c \<noteq> Direct)
                (conversations ex_db)\<rparr>)))
          (map (\<lambda>c. (c_type c, participants c)) (conversations ex_db))"
    by (simp add: subseq_map subseq_filter_left)
  from participants_constraint[where d = ex_db and caller = 1 and i = 11 and u = 3
      and us = "[3]" and now = 7000 and n = 12 and body = ?b and g = ex_gateway
      and sk = "ex_socket 1 ''alice''"
      and ev = "Send_message \<lparr>sd_conversationId = 11, sd_content = ''hello'', sd_type = None,
           sd_replyTo = None\<rparr>"
      and ?d2.0 = "ex_db\<lparr>conversations := filter (\<lambda>c. c_type c \<noteq> Direct)
                (conversations ex_db)\<rparr>"] h h' e9
  have "store_ok (ex_db\<lparr>conversations := filter (\<lambda>c. c_type c \<noteq> Direct)
                (conversations ex_db)\<rparr>) \<and> list_all (\<lambda>d'. store_ok d' \<and> unique_ids d')
     [fst (create_conversation 7000 12 ex_db 1 ?b),
      fst (delete_conversation 7000 ex_db 1 11),
      fst (add_participant 7000 ex_db 1 11 3),
      fst (add_group_members 7000 12 ex_db 1 11 [3]),
      fst (remove_group_member 7000 12 ex_db 1 11 3),
      fst (delete_admin_user ex_db 3),
      store (fst (on_event 7000 12 (ex_gateway\<lparr>store := ex_db\<rparr>) (ex_socket 1 ''alice'')
        (Send_message \<lparr>sd_conversationId = 11, sd_content = ''hello'', sd_type = None,
           sd_replyTo = None\<rparr>))),
      store (save_completes (ex_gateway\<lparr>store := ex_db\<rparr>) (ex_socket 1 ''alice''))]"
    by blast
  with h h' e1 e2 e3 e4 e5 e6 e7 e8 e9 show ?thesis by blast
qed


subsection \<open>Disconnection\<close>

lemma setOnlineStatus_stored:
  "uid \<in> set (map u_id (users d)) \<Longrightarrow>
   setOnlineStatus now online sock uid d =
     Inr (d\<lparr>users := map (\<lambda>u. if u_id u = uid
                       then u\<lparr>isOnline := online, socketId := sock,
                              lastSeen := (if \<not> online then now else lastSeen u),
                              u_updatedAt := now\<rparr>
                       else u) (users d)\<rparr>)"
  by (simp add: setOnlineStatus_def)

text \<open>
  The disconnection of a connection whose account is stored and has no save in flight.
  The presence registry has no entry for the identity afterwards; the stored account is
  offline, with the time of the disconnection as last-seen time and no socket id; one
  \<^verbatim>\<open>user_offline\<close> event goes to all other connections of the namespace; the invariant
  that a socket id is stored only with \<^verbatim>\<open>isOnline\<close> is kept; and the socket is in no
  room.
\<close>

theorem disconnect_offline:
  assumes "userId sk \<in> set (map u_id (users (store g)))"
    and free: "saving g (sk_id sk) = None"
  shows "\<exists>g'. disconnect now g sk =
           (g', [(connected g - {sk_id sk}, User_offline (userId sk) (sk_username sk) now)]) \<and>
     \<not> isUserOnline g' (userId sk) \<and>
     (\<exists>usr \<in> set (users (store g')). u_id usr = userId sk) \<and>
     (\<forall>usr \<in> set (users (store g')). u_id usr = userId sk \<longrightarrow>
         isOnline usr = False \<and> lastSeen usr = now \<and> socketId usr = None) \<and>
     (socket_only_online (store g) \<longrightarrow> socket_only_online (store g')) \<and>
     sk_id sk \<notin> connected g' \<and> (\<forall>r. sk_id sk \<notin> rooms g' r)"
proof -
  define f :: "user_doc \<Rightarrow> user_doc" where "f = (\<lambda>u. if u_id u = userId sk
                       then u\<lparr>isOnline := False, socketId := None, lastSeen := now,
                              u_updatedAt := now\<rparr>
                       else u)"
  define d' where "d' = (store g)\<lparr>users := map f (users (store g))\<rparr>"
  define g' where "g' = g\<lparr>rooms := (\<lambda>r. rooms g r - {sk_id sk}),
      connected := connected g - {sk_id sk},
      activeUsers := (activeUsers g)(userId sk := None), store := d'\<rparr>"
  have st: "setOnlineStatus now False None (userId sk) (store g) = Inr d'"
    using setOnlineStatus_stored[OF assms(1), of now False None] by (simp add: d'_def f_def)
  have dis: "disconnect now g sk =
           (g', [(connected g - {sk_id sk}, User_offline (userId sk) (sk_username sk) now)])"
    by (simp add: disconnect_def Let_def st socket_broadcast_def g'_def free)
  have reg: "\<not> isUserOnline g' (userId sk)"
    by (simp add: isUserOnline_def g'_def)
  have us: "users (store g') = map f (users (store g))"
    by (simp add: g'_def d'_def)
  have ex: "\<exists>usr \<in> set (users (store g')). u_id usr = userId sk"
  proof -
    from assms(1) obtain x where x: "x \<in> set (users (store g))" "u_id x = userId sk" by auto
    then have "f x \<in> set (users (store g'))" and "u_id (f x) = userId sk"
      unfolding us by (simp_all add: f_def)
    then show ?thesis by blast
  qed
  have off: "\<forall>usr \<in> set (users (store g')). u_id usr = userId sk \<longrightarrow>
         isOnline usr = False \<and> lastSeen usr = now \<and> socketId usr = None"
    unfolding us by (auto simp: f_def)
  have inv: "socket_only_online (store g) \<longrightarrow> socket_only_online (store g')"
    unfolding socket_only_online_def us by (auto simp: list_all_iff f_def)
  have gone: "sk_id sk \<notin> connected g' \<and> (\<forall>r. sk_id sk \<notin> rooms g' r)"
    by (simp add: g'_def)
  from dis reg ex off inv gone show ?thesis by blast
qed

text \<open>
  Alice and Bob have connected and the saves of their accounts have completed; then
  Alice's transport closes.
\<close>

theorem disconnect_offline_witness:
  "userId (ex_socket 1 ''alice'') \<in> set (map u_id (users (store ex_online))) \<and>
   saving ex_online (sk_id (ex_socket 1 ''alice'')) = None \<and>
   isUserOnline ex_online 1 \<and>
   \<not> isUserOnline (fst (disconnect 200 ex_online (ex_socket 1 ''alice''))) 1 \<and>
   snd (disconnect 200 ex_online (ex_socket 1 ''alice'')) =
     [({''socket-of-bob''}, User_offline 1 ''alice'' 200)] \<and>
   map (\<lambda>u. (u_id u, isOnline u, socketId u, lastSeen u))
     (users (store (fst (disconnect 200 ex_online (ex_socket 1 ''alice''))))) =
     [(1, False, None, 200), (2, True, Some ''socket-of-bob'', 0), (3, False, None, 0)]"
proof -
  let ?sk = "ex_socket 1 ''alice''"
  have h: "userId ?sk \<in> set (map u_id (users (store ex_online)))" by code_simp
  have h': "saving ex_online (sk_id ?sk) = None" by code_simp
  have o: "isUserOnline ex_online 1" by code_simp
  have u: "userId ?sk = 1" by code_simp
  have e: "snd (disconnect 200 ex_online ?sk) = [({''socket-of-bob''}, User_offline 1 ''alice'' 200)]"
    by code_simp
  have s: "map (\<lambda>u. (u_id u, isOnline u, socketId u, lastSeen u))
             (users (store (fst (disconnect 200 ex_online ?sk)))) =
           [(1, False, None, 200), (2, True, Some ''socket-of-bob'', 0), (3, False, None, 0)]"
    by code_simp
  from disconnect_offline[OF h h', of 200]
  have "\<not> isUserOnline (fst (disconnect 200 ex_online ?sk)) 1"
    using u by auto
  with h h' o e s show ?thesis by simp
qed

text \<open>
  C9. When the transport of a connected identity closes, the presence registry is to
  have no entry for the identity, the stored account is to be offline with a last-seen
  time and no socket id, and a \<^verbatim>\<open>user_offline\<close> event is to go to all other connections.
  The handler misses this for a connection that closes while the save that
  \<^verbatim>\<open>handleConnection\<close> started is in flight. Bob is connected. Alice connects at 200 and
  her transport closes at 210, before the save of her account has completed. The
  registry has no entry for Alice afterwards, but no event is sent, though Bob is
  connected; and when the save has completed, the stored account of Alice is online
  with the socket id of the closed connection, and its last-seen time is the old one.
  Had the save completed before the transport closed, the handler would have done all
  that it is to do.
\<close>

theorem disconnect_during_save:
  "isUserOnline ex_arrived 1 \<and>
   saving ex_arrived ''socket-of-alice'' = Some 200 \<and>
   connected ex_arrived = {''socket-of-alice'', ''socket-of-bob''} \<and>
   snd (disconnect 210 ex_arrived (ex_socket 1 ''alice'')) = [] \<and>
   store (fst (disconnect 210 ex_arrived (ex_socket 1 ''alice''))) = store ex_arrived \<and>
   \<not> isUserOnline ex_closed 1 \<and>
   connected ex_closed = {''socket-of-bob''} \<and>
   saving ex_closed ''socket-of-alice'' = None \<and>
   map (\<lambda>u. (u_id u, isOnline u, socketId u, lastSeen u)) (users (store ex_closed)) =
     [(1, True, Some ''socket-of-alice'', 0), (2, True, Some ''socket-of-bob'', 0),
      (3, False, None, 0)] \<and>
   snd (disconnect 210 (save_completes ex_arrived (ex_socket 1 ''alice'')) (ex_socket 1 ''alice'')) =
     [({''socket-of-bob''}, User_offline 1 ''alice'' 210)] \<and>
   map (\<lambda>u. (u_id u, isOnline u, socketId u, lastSeen u))
     (users (store (fst (disconnect 210 (save_completes ex_arrived (ex_socket 1 ''alice''))
        (ex_socket 1 ''alice''))))) =
     [(1, False, None, 210), (2, True, Some ''socket-of-bob'', 0), (3, False, None, 0)]"
  by code_simp


subsection \<open>Sending a message\<close>

lemma findConversationOf_Some:
  "findConversationOf d cid u = Some c \<Longrightarrow>
   c \<in> set (conversations d) \<and> c_id c = cid \<and> u \<in> set (participants c)"
  by (auto simp: findConversationOf_def find_Some_iff)

lemma conversation_update_stored:
  assumes "participants_ok c" and "c_id c \<in> set (map c_id (conversations d))"
  shows "conversation_update now c d =
     Inr (c\<lparr>c_updatedAt := now\<rparr>,
          d\<lparr>conversations := map (\<lambda>x. if c_id x = c_id c then c\<lparr>c_updatedAt := now\<rparr> else x)
                                 (conversations d)\<rparr>)"
proof -
  from assms(1) have "pre_save c = Inr c" by (simp add: pre_save_iff)
  with assms(2) show ?thesis by (simp add: conversation_update_def Let_def)
qed

lemma message_view_content:
  "\<not> isDeleted m \<Longrightarrow> map_of (message_view d m) ''content'' = Some (JStr (content m))"
  by (simp add: message_view_def message_toJSON_def message_toObject_def delete_key_def Let_def)

lemma message_view_sender:
  "map_of (message_view d m) ''sender'' = Some (populate_sender d m)"
  by (cases "isDeleted m")
    (simp_all add: message_view_def message_toJSON_def message_toObject_def delete_key_def Let_def)

lemma message_view_conversation:
  "map_of (message_view d m) ''conversation'' = Some (JId (conversation m))"
  by (cases "isDeleted m")
    (simp_all add: message_view_def message_toJSON_def message_toObject_def delete_key_def Let_def)

text \<open>
  C4, as amended. Let the identity of the connection be a participant of the
  conversation, let the stored conversation meet the participant constraint (its save
  checks it again), let the content after trimming be non-empty and of at most 2000
  characters, the kind one of the enumerated and the drawn id new. Then the handler
  stores one new message with that sender, the trimmed content and the conversation;
  the stored conversation gets the message as last message and the clock as last
  activity; and one \<^verbatim>\<open>new_message\<close> event is sent to all members of the conversation's
  room, the sender's own connections in the room included, carrying the content and the
  populated sender. Rooms and connections do not change.
\<close>

theorem send_message_delivers:
  assumes part: "findConversationOf (store g) (sd_conversationId dat) (userId sk) = Some conv"
    and ok: "participants_ok conv"
    and fresh: "new_id \<notin> set (map m_id (messages (store g)))"
    and valid: "valid_content (trim (sd_content dat))"
    and kind: "(case sd_type dat of None \<Rightarrow> ''text'' | Some t \<Rightarrow> t) \<in> set message_kinds"
  shows "\<exists>m g'.
     send_message now new_id g sk dat =
       (g', [(rooms g (Conversation_room (sd_conversationId dat)),
              New_message (message_view (store g') m))]) \<and>
     messages (store g') = messages (store g) @ [m] \<and>
     m_id m = new_id \<and> sender m = userId sk \<and> content m = trim (sd_content dat) \<and>
     conversation m = sd_conversationId dat \<and> m_createdAt m = now \<and>
     find (\<lambda>c. c_id c = sd_conversationId dat) (conversations (store g')) =
       Some (conv\<lparr>lastActivity := now, lastMessage := Some new_id, c_updatedAt := now\<rparr>) \<and>
     rooms g' = rooms g \<and> connected g' = connected g \<and>
     map_of (message_view (store g') m) ''content'' = Some (JStr (trim (sd_content dat))) \<and>
     map_of (message_view (store g') m) ''sender'' = Some (populate_sender (store g) m)"
proof -
  define cid where "cid = sd_conversationId dat"
  define ty where "ty = (case sd_type dat of None \<Rightarrow> ''text'' | Some t \<Rightarrow> t)"
  define m where "m = (new_Message new_id cid (userId sk) (sd_content dat) ty (sd_replyTo dat))
                        \<lparr>m_createdAt := now, m_updatedAt := now\<rparr>"
  define d1 where "d1 = (store g)\<lparr>messages := messages (store g) @ [m]\<rparr>"
  define c' where "c' = conv\<lparr>lastActivity := now, lastMessage := Some new_id, c_updatedAt := now\<rparr>"
  define d2 where "d2 = d1\<lparr>conversations := map (\<lambda>x. if c_id x = cid then c' else x)
                                 (conversations d1)\<rparr>"
  define g' where "g' = g\<lparr>store := d2\<rparr>"
  from findConversationOf_Some[OF part]
  have cs: "conv \<in> set (conversations (store g))" and ci: "c_id conv = cid"
    by (auto simp: cid_def)
  have ins: "message_insert now
               (new_Message new_id cid (userId sk) (sd_content dat) ty (sd_replyTo dat)) (store g) =
             Inr (m, d1)"
    using fresh valid kind
    by (simp add: message_insert_def new_Message_def Let_def m_def d1_def ty_def)
  have mid: "m_id m = new_id" by (simp add: m_def new_Message_def)
  let ?c2 = "conv\<lparr>lastActivity := now, lastMessage := Some new_id\<rparr>"
  have "participants_ok ?c2" using ok by (simp add: participants_ok_def split: conv_type.splits)
  moreover have "c_id ?c2 \<in> set (map c_id (conversations d1))" using cs by (auto simp: d1_def)
  ultimately have "conversation_update now ?c2 d1 = Inr (c', d2)"
    using conversation_update_stored[of ?c2 d1 now] ci by (simp add: c'_def d2_def)
  then have upd: "updateLastActivity now (Some (m_id m)) conv d1 = Inr (c', d2)"
    by (simp add: updateLastActivity_def mid)
  have send: "send_message now new_id g sk dat =
       (g', [(rooms g (Conversation_room cid), New_message (message_view (store g') m))])"
    using part ins upd
    by (simp add: send_message_def Let_def io_to_def g'_def cid_def[symmetric] ty_def[symmetric])
  have msgs: "messages (store g') = messages (store g) @ [m]"
    by (simp add: g'_def d2_def d1_def)
  have flds: "sender m = userId sk \<and> content m = trim (sd_content dat) \<and>
     conversation m = cid \<and> m_createdAt m = now \<and> \<not> isDeleted m"
    by (simp add: m_def new_Message_def)
  have fnd: "find (\<lambda>c. c_id c = cid) (conversations (store g')) = Some c'"
    using cs ci by (simp add: g'_def d2_def d1_def find_map_replace c'_def image_iff) auto
  have same: "rooms g' = rooms g \<and> connected g' = connected g" by (simp add: g'_def)
  have us: "populate_sender (store g') m = populate_sender (store g) m"
    by (simp add: populate_sender_def g'_def d2_def d1_def)
  have view: "map_of (message_view (store g') m) ''content'' = Some (JStr (trim (sd_content dat))) \<and>
     map_of (message_view (store g') m) ''sender'' = Some (populate_sender (store g) m)"
    using flds us by (simp add: message_view_content message_view_sender)
  from send msgs mid flds fnd same view show ?thesis
    unfolding cid_def[symmetric] c'_def[symmetric] by blast
qed



text \<open>
  The scenario: Alice and Bob are in the room of conversation 10 and Alice sends
  \<^verbatim>\<open>hello\<close>.
\<close>

theorem send_message_delivers_witness:
  "findConversationOf (store ex_joined) 10 1 \<noteq> None \<and>
   rooms ex_joined (Conversation_room 10) = {''socket-of-alice'', ''socket-of-bob''} \<and>
   map fst (snd (send_message 400 200 ex_joined (ex_socket 1 ''alice'')
      \<lparr>sd_conversationId = 10, sd_content = ''hello'', sd_type = None, sd_replyTo = None\<rparr>)) =
     [{''socket-of-alice'', ''socket-of-bob''}] \<and>
   map (\<lambda>em. case snd em of
               New_message obj \<Rightarrow> (map_of obj ''sender'', map_of obj ''content'')
             | _ \<Rightarrow> (None, None))
     (snd (send_message 400 200 ex_joined (ex_socket 1 ''alice'')
        \<lparr>sd_conversationId = 10, sd_content = ''hello'', sd_type = None, sd_replyTo = None\<rparr>)) =
     [(Some (JObj [(''_id'', JId 1), (''username'', JStr ''alice''),
                   (''email'', JStr ''alice@example.com''),
                   (''avatar'', JStr ''https://ui-avatars.com/api/?name=alice'')]),
       Some (JStr ''hello''))] \<and>
   find (\<lambda>c. c_id c = 10) (conversations (store (fst (send_message 400 200 ex_joined
      (ex_socket 1 ''alice'')
      \<lparr>sd_conversationId = 10, sd_content = ''hello'', sd_type = None, sd_replyTo = None\<rparr>)))) =
     Some ((ex_conversation 10 Direct [1, 2])
             \<lparr>lastActivity := 400, lastMessage := Some 200, c_updatedAt := 400\<rparr>)"
proof -
  let ?sk = "ex_socket 1 ''alice''"
  let ?dat = "\<lparr>sd_conversationId = 10, sd_content = ''hello'', sd_type = None, sd_replyTo = None\<rparr>"
  let ?conv = "ex_conversation 10 Direct [1, 2]"
  have part: "findConversationOf (store ex_joined) (sd_conversationId ?dat) (userId ?sk) = Some ?conv"
    by code_simp
  have ok: "participants_ok ?conv" by code_simp
  have fresh: "200 \<notin> set (map m_id (messages (store ex_joined)))" by code_simp
  have valid: "valid_content (trim (sd_content ?dat))" by code_simp
  have kind: "(case sd_type ?dat of None \<Rightarrow> ''text'' | Some t \<Rightarrow> t) \<in> set message_kinds"
    by code_simp
  have room: "rooms ex_joined (Conversation_room 10) = {''socket-of-alice'', ''socket-of-bob''}"
    by code_simp
  have ev: "map (\<lambda>em. case snd em of
               New_message obj \<Rightarrow> (map_of obj ''sender'', map_of obj ''content'')
             | _ \<Rightarrow> (None, None))
     (snd (send_message 400 200 ex_joined ?sk ?dat)) =
     [(Some (JObj [(''_id'', JId 1), (''username'', JStr ''alice''),
                   (''email'', JStr ''alice@example.com''),
                   (''avatar'', JStr ''https://ui-avatars.com/api/?name=alice'')]),
       Some (JStr ''hello''))]"
    by code_simp
  from send_message_delivers[OF part ok fresh valid kind, of 400] obtain m g' where
    s: "send_message 400 200 ex_joined ?sk ?dat =
          (g', [(rooms ex_joined (Conversation_room (sd_conversationId ?dat)),
                 New_message (message_view (store g') m))])"
    and f: "find (\<lambda>c. c_id c = sd_conversationId ?dat) (conversations (store g')) =
       Some (?conv\<lparr>lastActivity := 400, lastMessage := Some 200, c_updatedAt := 400\<rparr>)"
    by blast
  from s have t: "map fst (snd (send_message 400 200 ex_joined ?sk ?dat)) =
      [rooms ex_joined (Conversation_room 10)]" by simp
  from s f have f': "find (\<lambda>c. c_id c = 10) (conversations (store (fst (send_message 400 200
      ex_joined ?sk ?dat)))) =
      Some (?conv\<lparr>lastActivity := 400, lastMessage := Some 200, c_updatedAt := 400\<rparr>)" by simp
  from part have p: "findConversationOf (store ex_joined) 10 1 \<noteq> None"
    by (simp add: ex_socket_def)
  show ?thesis using p room t[unfolded room] ev f' by blast
qed


text \<open>
  The claim as it is written has every send of a participant store a message with the
  given content. Content of three spaces is trimmed to nothing and refused: no message is
  stored.
\<close>

theorem send_message_counterexample:
  "\<not> (\<forall>now new_id g sk dat conv.
         findConversationOf (store g) (sd_conversationId dat) (userId sk) = Some conv \<longrightarrow>
         (\<exists>m \<in> set (messages (store (fst (send_message now new_id g sk dat)))).
             m_id m = new_id \<and> sender m = userId sk \<and> content m = sd_content dat))"
proof
  assume a: "\<forall>now new_id g sk dat conv.
         findConversationOf (store g) (sd_conversationId dat) (userId sk) = Some conv \<longrightarrow>
         (\<exists>m \<in> set (messages (store (fst (send_message now new_id g sk dat)))).
             m_id m = new_id \<and> sender m = userId sk \<and> content m = sd_content dat)"
  let ?sk = "ex_socket 1 ''alice''"
  let ?dat = "\<lparr>sd_conversationId = 10, sd_content = ''   '', sd_type = None, sd_replyTo = None\<rparr>"
  have 1: "findConversationOf (store ex_joined) (sd_conversationId ?dat) (userId ?sk) =
             Some (ex_conversation 10 Direct [1, 2])"
    by code_simp
  have 2: "map m_id (messages (store (fst (send_message 400 200 ex_joined ?sk ?dat)))) =
             [100, 101, 102, 103, 104]"
    by code_simp
  from a 1 obtain m where "m \<in> set (messages (store (fst (send_message 400 200 ex_joined ?sk ?dat))))"
    and "m_id m = 200" by blast
  then have "200 \<in> set (map m_id (messages (store (fst (send_message 400 200 ex_joined ?sk ?dat)))))"
    by force
  then show False unfolding 2 by simp
qed


subsection \<open>Connections of non-participants\<close>

lemma findConversationOf_None: "(findConversationOf d C u = None) = no_member C u d"
  by (auto simp: findConversationOf_def find_None_iff no_member_def)

lemma no_member_update:
  assumes "no_member C u d" and "c \<in> set (conversations d)"
    and "participants c2 = participants c" and "c_id c2 = c_id c"
    and "conversation_update now c2 d = Inr (c', d')"
  shows "no_member C u d'"
  using assms(1-4) conversation_update_Inr[OF assms(5)]
  by (auto simp: no_member_def)

lemma no_member_messages [simp]: "no_member C u (d\<lparr>messages := ms\<rparr>) = no_member C u d"
  by (simp add: no_member_def)

lemma no_member_users [simp]: "no_member C u (d\<lparr>users := us\<rparr>) = no_member C u d"
  by (simp add: no_member_def)

lemma send_message_no_member:
  assumes "no_member C u (store g)" and "send_message now n g s dat = (g', out)"
  shows "no_member C u (store g')"
proof (cases "findConversationOf (store g) (sd_conversationId dat) (userId s)")
  case None
  with assms show ?thesis by (auto simp: send_message_def Let_def)
next
  case (Some conv)
  from findConversationOf_Some[OF Some] have cs: "conv \<in> set (conversations (store g))" by simp
  show ?thesis
  proof (cases "message_insert now (new_Message n (sd_conversationId dat) (userId s)
                  (sd_content dat) (case sd_type dat of None \<Rightarrow> ''text'' | Some t \<Rightarrow> t)
                  (sd_replyTo dat)) (store g)")
    case (Inl e)
    with assms Some show ?thesis by (auto simp: send_message_def Let_def)
  next
    case (Inr md)
    obtain m d1 where md: "md = (m, d1)" by (cases md)
    from Inr md have d1: "d1 = (store g)\<lparr>messages := messages d1\<rparr>"
      by (auto simp: message_insert_def Let_def split: if_splits)
    then have nm1: "no_member C u d1" and cs1: "conv \<in> set (conversations d1)"
      using assms(1) cs by (metis no_member_messages, metis db.select_convs(2) db.surjective db.update_convs(3))
    show ?thesis
    proof (cases "updateLastActivity now (Some (m_id m)) conv d1")
      case (Inl e)
      with assms Some Inr md nm1 show ?thesis by (auto simp: send_message_def Let_def)
    next
      case (Inr cd)
      obtain c' d2 where cd: "cd = (c', d2)" by (cases cd)
      from Inr cd have "conversation_update now
          (conv\<lparr>lastActivity := now, lastMessage := Some (m_id m)\<rparr>) d1 = Inr (c', d2)"
        by (simp add: updateLastActivity_def)
      from no_member_update[OF nm1 cs1 _ _ this] have "no_member C u d2" by simp
      with assms Some \<open>message_insert _ _ _ = Inr md\<close> md Inr cd show ?thesis
        by (auto simp: send_message_def Let_def)
    qed
  qed
qed


lemma on_event_no_member:
  assumes "no_member C u (store g)" and "on_event now n g s ev = (g', out)"
  shows "no_member C u (store g')"
proof (cases ev)
  case (Send_message dat)
  with assms show ?thesis by (auto intro: send_message_no_member)
next
  case (Mark_messages_read c ids)
  with assms show ?thesis
    by (auto simp: mark_messages_read_def no_member_def Let_def
        split: option.splits sum.splits dest: mark_all_conversations)
next
  case Disconnect
  with assms show ?thesis
    by (auto simp: disconnect_def no_member_def Let_def
        split: sum.splits option.splits dest: setOnlineStatus_conversations)
qed (use assms in \<open>auto simp: join_conversation_def leave_conversation_def typing_start_def
      typing_stop_def update_status_def socket_join_def socket_leave_def Let_def
      split: option.splits\<close>)


lemma quiet_Nil [simp]: "quiet k C []"
  by (simp add: quiet_def delivered_def)

lemma quiet_append [simp]: "quiet k C (xs @ ys) = (quiet k C xs \<and> quiet k C ys)"
  by (simp add: quiet_def delivered_def ball_Un)

lemma quiet_single:
  "quiet k C [(T, e)] = (k \<in> T \<longrightarrow> event_conversation e \<noteq> Some C)"
  by (simp add: quiet_def delivered_def)

lemma event_conversation_simps [simp]:
  "event_conversation (User_joined_conversation u n c) = Some c"
  "event_conversation (User_left_conversation u n c) = Some c"
  "event_conversation (New_message (message_view d m)) = Some (conversation m)"
  "event_conversation (User_typing u n c) = Some c"
  "event_conversation (User_stopped_typing u n c) = Some c"
  "event_conversation (Messages_read u c ids) = Some c"
  "event_conversation (User_online u n) = None"
  "event_conversation (User_status_changed u n st) = None"
  "event_conversation (User_offline u n t) = None"
  "event_conversation (Error_event msg) = None"
  by (simp_all add: event_conversation_def message_view_conversation)

lemma message_insert_conversation:
  "message_insert now (new_Message n c u txt ty r) d = Inr (m, d') \<Longrightarrow> conversation m = c"
  by (auto simp: message_insert_def new_Message_def Let_def split: if_splits)

lemma on_event_quiet:
  assumes out: "k \<notin> rooms g (Conversation_room C)"
    and own: "sk_id s = k \<longrightarrow> findConversationOf (store g) C (userId s) = None"
    and step: "on_event now n g s ev = (g', out)"
  shows "k \<notin> rooms g' (Conversation_room C) \<and> quiet k C out"
proof (cases ev)
  case (Join_conversation c)
  with assms show ?thesis
    by (auto simp: join_conversation_def socket_join_def socket_to_def quiet_single Let_def
        split: option.splits if_splits)
next
  case (Leave_conversation c)
  with assms show ?thesis
    by (auto simp: leave_conversation_def socket_leave_def socket_to_def quiet_single Let_def
        split: if_splits)
next
  case (Send_message dat)
  with assms show ?thesis
    by (auto simp: send_message_def io_to_def socket_emit_def quiet_single Let_def
        split: option.splits sum.splits dest!: message_insert_conversation)
next
  case (Typing_start c)
  with assms show ?thesis by (auto simp: typing_start_def socket_to_def quiet_single)
next
  case (Typing_stop c)
  with assms show ?thesis by (auto simp: typing_stop_def socket_to_def quiet_single)
next
  case (Mark_messages_read c ids)
  with assms show ?thesis
    by (auto simp: mark_messages_read_def socket_to_def socket_emit_def quiet_single Let_def
        split: option.splits sum.splits)
next
  case (Update_status st)
  with assms show ?thesis by (auto simp: update_status_def socket_broadcast_def quiet_single)
next
  case Disconnect
  with assms show ?thesis
    by (auto simp: disconnect_def socket_broadcast_def quiet_single Let_def
        split: sum.splits option.splits)
qed


lemma run_quiet:
  assumes "\<forall>step \<in> set evs. sk_id (fst (snd (snd step))) = k \<longrightarrow> userId (fst (snd (snd step))) = u"
    and "k \<notin> rooms g (Conversation_room C)" and "no_member C u (store g)"
  shows "quiet k C (snd (run g evs)) \<and> k \<notin> rooms (fst (run g evs)) (Conversation_room C) \<and>
         no_member C u (store (fst (run g evs)))"
  using assms
proof (induction evs arbitrary: g)
  case Nil
  then show ?case by simp
next
  case (Cons step evs)
  obtain now n s ev where step: "step = (now, n, s, ev)" by (cases step) auto
  obtain g1 out1 where one: "on_event now n g s ev = (g1, out1)" by (cases "on_event now n g s ev")
  from Cons.prems(1) step have own: "sk_id s = k \<longrightarrow> findConversationOf (store g) C (userId s) = None"
    using Cons.prems(3) by (auto simp: findConversationOf_None)
  from on_event_quiet[OF Cons.prems(2) own one]
  have r1: "k \<notin> rooms g1 (Conversation_room C)" and q1: "quiet k C out1" by auto
  from on_event_no_member[OF Cons.prems(3) one] have n1: "no_member C u (store g1)" .
  from Cons.prems(1) have rest: "\<forall>step \<in> set evs. sk_id (fst (snd (snd step))) = k \<longrightarrow>
      userId (fst (snd (snd step))) = u" by simp
  from Cons.IH[OF rest r1 n1] q1 show ?case
    by (simp add: step one split_beta Let_def)
qed

text \<open>
  C5, as amended. Let the identity of a connection not be a participant of the
  conversation \<open>C\<close>. Then \<^verbatim>\<open>send_message\<close> and \<^verbatim>\<open>mark_messages_read\<close> for \<open>C\<close> send one
  error event to that connection only and leave the whole state as it is, and
  \<^verbatim>\<open>join_conversation\<close> for \<open>C\<close> changes nothing and emits nothing: no error, no room
  membership. If moreover the connection was not already in the room of \<open>C\<close>, then in
  every run of gateway events that follows the join (in which the socket id belongs to
  this identity) no event about \<open>C\<close> reaches the connection.
\<close>

theorem non_participant:
  assumes np: "findConversationOf (store g) C (userId sk) = None"
  shows "send_message now n g sk (dat\<lparr>sd_conversationId := C\<rparr>) =
           (g, [({sk_id sk}, Error_event ''Conversation not found'')]) \<and>
         mark_messages_read now g sk C ids =
           (g, [({sk_id sk}, Error_event ''Conversation not found'')]) \<and>
         join_conversation g sk C = (g, []) \<and>
         (sk_id sk \<notin> rooms g (Conversation_room C) \<and>
          (\<forall>step \<in> set evs. sk_id (fst (snd (snd step))) = sk_id sk \<longrightarrow>
                              userId (fst (snd (snd step))) = userId sk) \<longrightarrow>
            (\<forall>e \<in> set (delivered (sk_id sk) (snd (run (fst (join_conversation g sk C)) evs))).
                event_conversation e \<noteq> Some C))"
proof -
  have s: "send_message now n g sk (dat\<lparr>sd_conversationId := C\<rparr>) =
           (g, [({sk_id sk}, Error_event ''Conversation not found'')])"
    using np by (simp add: send_message_def socket_emit_def Let_def)
  have m: "mark_messages_read now g sk C ids =
           (g, [({sk_id sk}, Error_event ''Conversation not found'')])"
    using np by (simp add: mark_messages_read_def socket_emit_def)
  have j: "join_conversation g sk C = (g, [])"
    using np by (simp add: join_conversation_def)
  have q: "\<forall>e \<in> set (delivered (sk_id sk) (snd (run (fst (join_conversation g sk C)) evs))).
                event_conversation e \<noteq> Some C"
    if "sk_id sk \<notin> rooms g (Conversation_room C)"
      and "\<forall>step \<in> set evs. sk_id (fst (snd (snd step))) = sk_id sk \<longrightarrow>
                              userId (fst (snd (snd step))) = userId sk"
    using run_quiet[OF that(2) that(1)] np
    by (simp add: j findConversationOf_None quiet_def)
  from s m j q show ?thesis by blast
qed

text \<open>
  Carol is no participant of conversation 10: her send, her read receipts and her join
  are answered as stated, and Alice's next message goes to Alice and Bob only.
\<close>

theorem non_participant_witness:
  "findConversationOf (store ex_three) 10 (userId (ex_socket 3 ''carol'')) = None \<and>
   sk_id (ex_socket 3 ''carol'') \<notin> rooms ex_three (Conversation_room 10) \<and>
   snd (send_message 400 200 ex_three (ex_socket 3 ''carol'')
          \<lparr>sd_conversationId = 10, sd_content = ''hello'', sd_type = None, sd_replyTo = None\<rparr>) =
     [({''socket-of-carol''}, Error_event ''Conversation not found'')] \<and>
   snd (mark_messages_read 400 ex_three (ex_socket 3 ''carol'') 10 [100, 101]) =
     [({''socket-of-carol''}, Error_event ''Conversation not found'')] \<and>
   snd (join_conversation ex_three (ex_socket 3 ''carol'') 10) = [] \<and>
   map fst (snd (run (fst (join_conversation ex_three (ex_socket 3 ''carol'') 10))
      [(400, 200, ex_socket 1 ''alice'', Send_message
          \<lparr>sd_conversationId = 10, sd_content = ''hello'', sd_type = None, sd_replyTo = None\<rparr>)])) =
     [{''socket-of-alice'', ''socket-of-bob''}] \<and>
   list_all (\<lambda>e. event_conversation e \<noteq> Some 10)
     (delivered ''socket-of-carol''
       (snd (run (fst (join_conversation ex_three (ex_socket 3 ''carol'') 10))
        [(400, 200, ex_socket 1 ''alice'', Send_message
          \<lparr>sd_conversationId = 10, sd_content = ''hello'', sd_type = None, sd_replyTo = None\<rparr>)])))"
proof -
  let ?sk = "ex_socket 3 ''carol''"
  let ?dat = "\<lparr>sd_conversationId = 10, sd_content = ''hello'', sd_type = None, sd_replyTo = None\<rparr>"
  let ?evs = "[(400::int, 200::nat, ex_socket 1 ''alice'', Send_message ?dat)]"
  have np: "findConversationOf (store ex_three) 10 (userId ?sk) = None" by code_simp
  have nr: "sk_id ?sk \<notin> rooms ex_three (Conversation_room 10)" by code_simp
  have k: "sk_id ?sk = ''socket-of-carol''" by code_simp
  have d: "?dat\<lparr>sd_conversationId := 10\<rparr> = ?dat" by simp
  have tr: "\<forall>step \<in> set ?evs. sk_id (fst (snd (snd step))) = sk_id ?sk \<longrightarrow>
              userId (fst (snd (snd step))) = userId ?sk"
    by (simp add: ex_socket_def)
  have t: "map fst (snd (run (fst (join_conversation ex_three ?sk 10)) ?evs)) =
     [{''socket-of-alice'', ''socket-of-bob''}]" by code_simp
  from non_participant[OF np, where now = 400 and n = 200 and dat = ?dat
      and ids = "[100, 101]" and evs = ?evs] nr tr
  have "snd (send_message 400 200 ex_three ?sk ?dat) =
          [({''socket-of-carol''}, Error_event ''Conversation not found'')]"
    and "snd (mark_messages_read 400 ex_three ?sk 10 [100, 101]) =
          [({''socket-of-carol''}, Error_event ''Conversation not found'')]"
    and "snd (join_conversation ex_three ?sk 10) = []"
    and "\<forall>e \<in> set (delivered (sk_id ?sk) (snd (run (fst (join_conversation ex_three ?sk 10)) ?evs))).
           event_conversation e \<noteq> Some 10"
    unfolding d k by simp_all
  then show ?thesis using np nr t unfolding k by (simp add: list_all_iff)
qed

text \<open>
  The claim as it is written has no event of \<open>C\<close> delivered after the failed join of
  any non-participant. Carol had joined the room of the group 11 while she was a
  participant and has left the group since; her join is refused in silence, but her
  connection is still in the room and gets Alice's next message.
\<close>

theorem non_participant_counterexample:
  "\<not> (\<forall>g sk C evs.
         findConversationOf (store g) C (userId sk) = None \<longrightarrow>
         (\<forall>e \<in> set (delivered (sk_id sk) (snd (run (fst (join_conversation g sk C)) evs))).
             event_conversation e \<noteq> Some C))"
proof
  assume a: "\<forall>g sk C evs.
         findConversationOf (store g) C (userId sk) = None \<longrightarrow>
         (\<forall>e \<in> set (delivered (sk_id sk) (snd (run (fst (join_conversation g sk C)) evs))).
             event_conversation e \<noteq> Some C)"
  let ?sk = "ex_socket 3 ''carol''"
  let ?evs = "[(600, 200, ex_socket 1 ''alice'', Send_message
      \<lparr>sd_conversationId = 11, sd_content = ''news'', sd_type = None, sd_replyTo = None\<rparr>)]"
  have 1: "findConversationOf (store ex_left) 11 (userId ?sk) = None" by code_simp
  have 2: "map event_conversation
             (delivered (sk_id ?sk) (snd (run (fst (join_conversation ex_left ?sk 11)) ?evs))) =
           [Some 11]" by code_simp
  from a 1 have "\<forall>e \<in> set (delivered (sk_id ?sk)
        (snd (run (fst (join_conversation ex_left ?sk 11)) ?evs))). event_conversation e \<noteq> Some 11"
    by blast
  then have "Some 11 \<notin> set (map event_conversation
             (delivered (sk_id ?sk) (snd (run (fst (join_conversation ex_left ?sk 11)) ?evs))))"
    by auto
  then show False unfolding 2 by simp
qed

end
